theory Spec2Isabelle
  imports Complex_Main "HOL-Library.Monad_Syntax"
begin

section \<open>The native bridge between RandUnuran and UNURAN\<close>

text \<open>
  The development follows \<^verbatim>\<open>randvar/c/RandUnuran.c\<close>. Native pointers and Java references
  are natural numbers, with 0 for \<^verbatim>\<open>NULL\<close> and for the null reference. A \<^verbatim>\<open>jdouble\<close> is only
  stored and handed on by this code, never computed with, and is a real number here.
  Every function that can dereference a pointer returns an option: \<open>None\<close> stands for the
  undefined behaviour of C (a dangling or null pointer, a read or write out of range, a
  second \<^verbatim>\<open>free\<close> of one block).
\<close>

type_synonym addr = nat
type_synonym jobject = nat
type_synonym jdouble = real
type_synonym JNIEnv = nat

subsection \<open>Data\<close>

text \<open>
  The values that the function pointer \<^verbatim>\<open>GenParams.unif\<close> takes: the addresses of the
  functions \<^verbatim>\<open>unif\<close>, \<^verbatim>\<open>cons\<close> and \<^verbatim>\<open>arr\<close>.
\<close>

datatype unif_ptr = F_unif | F_cons | F_arr

text \<open>
  \<^verbatim>\<open>struct GenParams\<close>. The field \<open>gp_unifArray\<close> is the pointer returned by
  \<^verbatim>\<open>GetDoubleArrayElements\<close>: the virtual machine is taken to pin arrays, so the pointer
  addresses the elements of the Java array itself and is named by that array.
\<close>

record GenParams =
  gp_env :: JNIEnv
  gp_rsObj :: jobject
  gp_u :: jdouble
  gp_urng :: addr
  gp_junifArray :: jobject
  gp_unifArray :: jobject
  gp_n :: int
  gp_nextIndex :: int
  gp_unif :: unif_ptr

text \<open>\<^verbatim>\<open>struct UrngWithParams\<close> and \<^verbatim>\<open>struct NativeParams\<close>.\<close>

record UrngWithParams =
  uw_urng :: addr
  uw_params :: addr

record NativeParams =
  np_unurgen :: addr
  np_objMainStream :: jobject
  np_objAuxStream :: jobject
  np_urng :: UrngWithParams
  np_urng_aux :: UrngWithParams
  np_dim :: int

text \<open>
  The UNURAN generator is not part of this code. Its sampling routines are given by what
  they ask of the two uniform generators bound to them: a sampling routine either returns
  a variate or draws one uniform from the main or the auxiliary generator and goes on with
  the number it got.
\<close>

datatype slot = Primary | Auxiliary

datatype 'r sampler = Return 'r | Draw slot "jdouble \<Rightarrow> 'r sampler"

record UNUR_GEN =
  gen_urng :: addr
  gen_urng_aux :: addr
  gen_dim :: int
  gen_discr :: "int sampler"
  gen_cont :: "jdouble sampler"
  gen_vec :: "jdouble list sampler"

text \<open>Calls made on the managed random streams, in the order they are made.\<close>

datatype stream_call =
    NextDouble jobject
  | NextArrayOfDouble jobject jobject int int

text \<open>A Java exception: its class and its message.\<close>

datatype jthrowable = Throwable string string

text \<open>
  The state on which the native code works: the C heap (one map per type of block and a
  counter for fresh addresses), the static variables of the file, the state of the UNURAN
  library, and the part of the Java virtual machine that the code reaches (the fields of
  RandUnuran objects, the random streams, the arrays, the global references, the pending
  exception). The fields \<open>calls\<close> and \<open>sample_calls\<close> record what was asked of the
  streams and how often a sampling routine of UNURAN was entered.

  What the code cannot decide is a field as well. \<open>grants\<close> lists the answers to the
  requests for a resource still to come (\<^verbatim>\<open>malloc\<close>, \<^verbatim>\<open>unur_urng_new\<close>, \<^verbatim>\<open>NewGlobalRef\<close>,
  \<^verbatim>\<open>GetStringUTFChars\<close>, the access to the elements of an array): each request takes the
  first answer, and a request is granted when the list is empty. \<open>class_found\<close> and
  \<open>member_found\<close> say which classes, fields and methods the virtual machine can resolve,
  and \<open>str2gen\<close> is the parser of UNURAN: for a generator string it gives the generator
  or the text of the error. \<open>unur_errno\<close> holds the text that \<^verbatim>\<open>unur_get_strerror (unur_errno)\<close>
  gives. \<open>fresh_block\<close> is what a block of type GenParams holds when \<^verbatim>\<open>malloc\<close> hands it
  out, which C leaves open.
\<close>

record world =
  gen_params :: "addr \<rightharpoonup> GenParams"
  urngs :: "addr \<rightharpoonup> addr"
  gens :: "addr \<rightharpoonup> UNUR_GEN"
  native_params :: "addr \<rightharpoonup> NativeParams"
  next_addr :: addr
  default_urng :: UrngWithParams
  unur_default_urng :: addr
  fidNativeParams :: bool
  fidMainStream :: bool
  fidAuxStream :: bool
  midNextDouble :: bool
  midNextArrayOfDouble :: bool
  nativeParams :: "jobject \<Rightarrow> addr"
  mainStream :: "jobject \<Rightarrow> jobject"
  auxStream :: "jobject \<Rightarrow> jobject"
  streams :: "jobject \<rightharpoonup> (nat \<Rightarrow> jdouble)"
  double_arrays :: "jobject \<rightharpoonup> jdouble list"
  int_arrays :: "jobject \<rightharpoonup> int list"
  global_refs :: "jobject list"
  pending :: "jthrowable option"
  calls :: "stream_call list"
  sample_calls :: nat
  grants :: "bool list"
  class_found :: "string \<Rightarrow> bool"
  member_found :: "string \<Rightarrow> bool"
  str2gen :: "string \<Rightarrow> string + UNUR_GEN"
  unur_errno :: string
  fresh_block :: GenParams

definition granted :: "world \<Rightarrow> bool" where
  "granted w = (case grants w of [] \<Rightarrow> True | b # bs \<Rightarrow> b)"

definition request :: "world \<Rightarrow> bool \<times> world" where
  "request w = (case grants w of [] \<Rightarrow> (True, w) | b # bs \<Rightarrow> (b, w\<lparr>grants := bs\<rparr>))"

subsection \<open>The managed random streams\<close>

text \<open>
  Modelled from the spec: the interface \<^verbatim>\<open>RandomStream\<close> of the managed side, of which the
  native code calls \<^verbatim>\<open>nextDouble ()\<close> and \<^verbatim>\<open>nextArrayOfDouble (array, start, n)\<close>. A stream
  is the sequence of the uniforms it has still to give; \<^verbatim>\<open>nextDouble\<close> takes the first,
  \<^verbatim>\<open>nextArrayOfDouble\<close> writes the first \<open>n\<close> into \<open>array[start ..< start + n]\<close>. A request
  that does not fit the array raises the exception of the Java array access and writes
  nothing.
\<close>

definition CallDoubleMethod_nextDouble :: "jobject \<Rightarrow> world \<Rightarrow> (jdouble \<times> world) option" where
  "CallDoubleMethod_nextDouble rs w =
     (case streams w rs of
        None \<Rightarrow> None
      | Some s \<Rightarrow>
          Some (s 0, w\<lparr>streams := (streams w)(rs \<mapsto> (\<lambda>i. s (Suc i))),
                        calls := calls w @ [NextDouble rs]\<rparr>))"

definition CallVoidMethod_nextArrayOfDouble ::
  "jobject \<Rightarrow> jobject \<Rightarrow> int \<Rightarrow> int \<Rightarrow> world \<Rightarrow> world option" where
  "CallVoidMethod_nextArrayOfDouble rs a start cnt w =
     (case streams w rs of
        None \<Rightarrow> None
      | Some s \<Rightarrow>
         (case double_arrays w a of
            None \<Rightarrow> None
          | Some xs \<Rightarrow>
              if 0 \<le> start \<and> 0 \<le> cnt \<and> start + cnt \<le> int (length xs)
              then Some (w\<lparr>streams := (streams w)(rs \<mapsto> (\<lambda>i. s (i + nat cnt))),
                           double_arrays := (double_arrays w)(a \<mapsto>
                              take (nat start) xs @ map s [0..<nat cnt]
                                @ drop (nat start + nat cnt) xs),
                           calls := calls w @ [NextArrayOfDouble rs a start cnt]\<rparr>)
              else Some (w\<lparr>pending :=
                             Some (Throwable ''java/lang/ArrayIndexOutOfBoundsException'' []),
                           calls := calls w @ [NextArrayOfDouble rs a start cnt]\<rparr>)))"

subsection \<open>The three functions behind a uniform generator\<close>

text \<open>
  \<^verbatim>\<open>unif\<close>, \<^verbatim>\<open>cons\<close> and \<^verbatim>\<open>arr\<close> take the address of a parameter block. \<^verbatim>\<open>unif\<close> and the
  refill of \<^verbatim>\<open>arr\<close> call the Java native interface through the interface pointer kept in
  the block, \<^verbatim>\<open>(*(params->env))->...\<close>. The pointer 0 stands for every interface pointer that
  cannot be used: \<^verbatim>\<open>NULL\<close>, and the content of the field \<^verbatim>\<open>env\<close> of a block in which no
  interface pointer was stored since \<^verbatim>\<open>malloc\<close> handed it out. A call through it is
  undefined.
\<close>

definition unif :: "addr \<Rightarrow> world \<Rightarrow> (jdouble \<times> world) option" where
  "unif p w =
     (case gen_params w p of
        None \<Rightarrow> None
      | Some params \<Rightarrow>
          if gp_env params = 0 then None
          else CallDoubleMethod_nextDouble (gp_rsObj params) w)"

definition cons :: "addr \<Rightarrow> world \<Rightarrow> (jdouble \<times> world) option" where
  "cons p w =
     (case gen_params w p of
        None \<Rightarrow> None
      | Some params \<Rightarrow>
          Some (gp_u params,
                w\<lparr>gen_params := (gen_params w)(p \<mapsto> params\<lparr>gp_unif := F_unif\<rparr>)\<rparr>))"

text \<open>
  \<^verbatim>\<open>GetDoubleArrayElements\<close> gives the pointer to the elements of a live array, or
  \<^verbatim>\<open>NULL\<close> when the virtual machine refuses the request;
  \<^verbatim>\<open>ReleaseDoubleArrayElements\<close> with mode 0 gives a pinned array back and changes nothing.
\<close>

definition GetDoubleArrayElements :: "jobject \<Rightarrow> world \<Rightarrow> (jobject \<times> world) option" where
  "GetDoubleArrayElements a w =
     (case double_arrays w a of
        None \<Rightarrow> None
      | Some xs \<Rightarrow> (case request w of (ok, w') \<Rightarrow> Some (if ok then a else 0, w')))"

definition ReleaseDoubleArrayElements :: "jobject \<Rightarrow> jobject \<Rightarrow> world \<Rightarrow> world" where
  "ReleaseDoubleArrayElements a elems w = w"

definition arr_refill :: "GenParams \<Rightarrow> world \<Rightarrow> (GenParams \<times> world) option" where
  "arr_refill params w =
     (if gp_env params = 0 then None
      else
       (case CallVoidMethod_nextArrayOfDouble (gp_rsObj params) (gp_junifArray params) 0
               (gp_n params)
               (ReleaseDoubleArrayElements (gp_junifArray params) (gp_unifArray params) w) of
          None \<Rightarrow> None
        | Some w' \<Rightarrow>
           (case GetDoubleArrayElements (gp_junifArray params) w' of
              None \<Rightarrow> None
            | Some (elems, w'') \<Rightarrow>
                Some (params\<lparr>gp_unifArray := elems, gp_nextIndex := 0\<rparr>, w''))))"

definition arr :: "addr \<Rightarrow> world \<Rightarrow> (jdouble \<times> world) option" where
  "arr p w =
     (case gen_params w p of
        None \<Rightarrow> None
      | Some params \<Rightarrow>
         (case (if gp_nextIndex params \<ge> gp_n params then arr_refill params w
                else Some (params, w)) of
            None \<Rightarrow> None
          | Some (params', w') \<Rightarrow>
             (case double_arrays w' (gp_unifArray params') of
                None \<Rightarrow> None
              | Some xs \<Rightarrow>
                  if 0 \<le> gp_nextIndex params' \<and> gp_nextIndex params' < int (length xs)
                  then Some (xs ! nat (gp_nextIndex params'),
                             w'\<lparr>gen_params := (gen_params w')(p \<mapsto>
                                  params'\<lparr>gp_nextIndex := gp_nextIndex params' + 1\<rparr>)\<rparr>)
                  else None)))"

definition unif_wrapper :: "addr \<Rightarrow> world \<Rightarrow> (jdouble \<times> world) option" where
  "unif_wrapper p w =
     (case gen_params w p of
        None \<Rightarrow> None
      | Some params \<Rightarrow>
         (case gp_unif params of
            F_unif \<Rightarrow> unif p w
          | F_cons \<Rightarrow> cons p w
          | F_arr \<Rightarrow> arr p w))"

text \<open>
  A uniform generator of UNURAN made by \<^verbatim>\<open>unur_urng_new (unif_wrapper, params)\<close> keeps the
  pointer \<open>params\<close> it was made with and calls \<^verbatim>\<open>unif_wrapper (params)\<close> for each uniform.
\<close>

definition unur_urng_sample :: "addr \<Rightarrow> world \<Rightarrow> (jdouble \<times> world) option" where
  "unur_urng_sample g w =
     (case urngs w g of None \<Rightarrow> None | Some p \<Rightarrow> unif_wrapper p w)"

text \<open>\<open>pulls k p\<close> asks the generator function of block \<open>p\<close> for \<open>k\<close> uniforms in a row.\<close>

fun pulls :: "nat \<Rightarrow> addr \<Rightarrow> world \<Rightarrow> (jdouble list \<times> world) option" where
  "pulls 0 p w = Some ([], w)"
| "pulls (Suc k) p w =
     (case unif_wrapper p w of
        None \<Rightarrow> None
      | Some (x, w') \<Rightarrow>
         (case pulls k p w' of
            None \<Rightarrow> None
          | Some (xs, w'') \<Rightarrow> Some (x # xs, w'')))"

subsection \<open>The sampling routines of UNURAN\<close>

text \<open>
  A sampling routine runs against the two uniform generators that \<^verbatim>\<open>unur_chg_urng\<close> and
  \<^verbatim>\<open>unur_chg_urng_aux\<close> bound to the generator object.
\<close>

primrec run_sampler :: "'r sampler \<Rightarrow> addr \<Rightarrow> addr \<Rightarrow> world \<Rightarrow> ('r \<times> world) option" where
  "run_sampler (Return r) g ga w = Some (r, w)"
| "run_sampler (Draw s k) g ga w =
     (case unur_urng_sample (case s of Primary \<Rightarrow> g | Auxiliary \<Rightarrow> ga) w of
        None \<Rightarrow> None
      | Some (x, w') \<Rightarrow> run_sampler (k x) g ga w')"

definition unur_sample_discr :: "addr \<Rightarrow> world \<Rightarrow> (int \<times> world) option" where
  "unur_sample_discr g w =
     (case gens w g of
        None \<Rightarrow> None
      | Some gen \<Rightarrow>
          run_sampler (gen_discr gen) (gen_urng gen) (gen_urng_aux gen)
            (w\<lparr>sample_calls := Suc (sample_calls w)\<rparr>))"

definition unur_sample_cont :: "addr \<Rightarrow> world \<Rightarrow> (jdouble \<times> world) option" where
  "unur_sample_cont g w =
     (case gens w g of
        None \<Rightarrow> None
      | Some gen \<Rightarrow>
          run_sampler (gen_cont gen) (gen_urng gen) (gen_urng_aux gen)
            (w\<lparr>sample_calls := Suc (sample_calls w)\<rparr>))"

text \<open>\<^verbatim>\<open>unur_sample_vec (gen, vec)\<close> writes the vector it sampled to the front of \<open>vec\<close>.\<close>

definition unur_sample_vec :: "addr \<Rightarrow> jobject \<Rightarrow> world \<Rightarrow> world option" where
  "unur_sample_vec g vec w =
     (case gens w g of
        None \<Rightarrow> None
      | Some gen \<Rightarrow>
         (case run_sampler (gen_vec gen) (gen_urng gen) (gen_urng_aux gen)
                 (w\<lparr>sample_calls := Suc (sample_calls w)\<rparr>) of
            None \<Rightarrow> None
          | Some (r, w') \<Rightarrow>
             (case double_arrays w' vec of
                None \<Rightarrow> None
              | Some xs \<Rightarrow>
                  if length r \<le> length xs
                  then Some (w'\<lparr>double_arrays :=
                               (double_arrays w')(vec \<mapsto> r @ drop (length r) xs)\<rparr>)
                  else None)))"

subsection \<open>Stores through pointers and the remaining calls of the native interface\<close>

definition store :: "addr \<Rightarrow> (GenParams \<Rightarrow> GenParams) \<Rightarrow> world \<Rightarrow> world option" where
  "store p f w =
     (case gen_params w p of
        None \<Rightarrow> None
      | Some b \<Rightarrow> Some (w\<lparr>gen_params := (gen_params w)(p \<mapsto> f b)\<rparr>))"

definition store_np :: "addr \<Rightarrow> (NativeParams \<Rightarrow> NativeParams) \<Rightarrow> world \<Rightarrow> world option" where
  "store_np p f w =
     (case native_params w p of
        None \<Rightarrow> None
      | Some b \<Rightarrow> Some (w\<lparr>native_params := (native_params w)(p \<mapsto> f b)\<rparr>))"

definition GetIntArrayElements :: "jobject \<Rightarrow> world \<Rightarrow> (jobject \<times> world) option" where
  "GetIntArrayElements a w =
     (case int_arrays w a of
        None \<Rightarrow> None
      | Some xs \<Rightarrow> (case request w of (ok, w') \<Rightarrow> Some (if ok then a else 0, w')))"

definition ReleaseIntArrayElements :: "jobject \<Rightarrow> jobject \<Rightarrow> world \<Rightarrow> world" where
  "ReleaseIntArrayElements a elems w = w"

definition GetArrayLength :: "jobject \<Rightarrow> world \<Rightarrow> int option" where
  "GetArrayLength a w =
     (case double_arrays w a of None \<Rightarrow> None | Some xs \<Rightarrow> Some (int (length xs)))"

text \<open>Writes \<^verbatim>\<open>v[i] = x\<close> through a pointer to the elements of an array.\<close>

definition write_int :: "jobject \<Rightarrow> int \<Rightarrow> int \<Rightarrow> world \<Rightarrow> world option" where
  "write_int v i x w =
     (case int_arrays w v of
        None \<Rightarrow> None
      | Some xs \<Rightarrow>
          if 0 \<le> i \<and> i < int (length xs)
          then Some (w\<lparr>int_arrays := (int_arrays w)(v \<mapsto> xs[nat i := x])\<rparr>)
          else None)"

definition write_double :: "jobject \<Rightarrow> int \<Rightarrow> jdouble \<Rightarrow> world \<Rightarrow> world option" where
  "write_double v i x w =
     (case double_arrays w v of
        None \<Rightarrow> None
      | Some xs \<Rightarrow>
          if 0 \<le> i \<and> i < int (length xs)
          then Some (w\<lparr>double_arrays := (double_arrays w)(v \<mapsto> xs[nat i := x])\<rparr>)
          else None)"

text \<open>
  \<^verbatim>\<open>FindClass\<close> gives whether the class was found, and leaves an exception pending when it
  was not. \<^verbatim>\<open>ThrowNew\<close> makes an exception of the class pending.
\<close>

definition FindClass :: "string \<Rightarrow> world \<Rightarrow> bool \<times> world" where
  "FindClass name w =
     (if class_found w name then (True, w)
      else (False, w\<lparr>pending := Some (Throwable ''java/lang/NoClassDefFoundError'' name)\<rparr>))"

definition ThrowNew :: "string \<Rightarrow> string \<Rightarrow> world \<Rightarrow> world" where
  "ThrowNew cls msg w = w\<lparr>pending := Some (Throwable cls msg)\<rparr>"

text \<open>
  The accesses to the fields \<^verbatim>\<open>nativeParams\<close>, \<^verbatim>\<open>mainStream\<close> and \<^verbatim>\<open>auxStream\<close> of a
  RandUnuran object. Each names the field by the identifier that \<^verbatim>\<open>initClass\<close> caches in a
  static variable. The access is undefined when that identifier is still 0, and when an
  exception is pending: the native interface allows only a few calls then, and the
  accesses to fields are not among them.
\<close>

definition GetLongField_nativeParams :: "jobject \<Rightarrow> world \<Rightarrow> addr option" where
  "GetLongField_nativeParams obj w =
     (if fidNativeParams w \<and> pending w = None then Some (nativeParams w obj) else None)"

definition SetLongField_nativeParams :: "jobject \<Rightarrow> addr \<Rightarrow> world \<Rightarrow> world option" where
  "SetLongField_nativeParams obj v w =
     (if fidNativeParams w \<and> pending w = None
      then Some (w\<lparr>nativeParams := (nativeParams w)(obj := v)\<rparr>) else None)"

definition GetObjectField_mainStream :: "jobject \<Rightarrow> world \<Rightarrow> jobject option" where
  "GetObjectField_mainStream obj w =
     (if fidMainStream w \<and> pending w = None then Some (mainStream w obj) else None)"

definition GetObjectField_auxStream :: "jobject \<Rightarrow> world \<Rightarrow> jobject option" where
  "GetObjectField_auxStream obj w =
     (if fidAuxStream w \<and> pending w = None then Some (auxStream w obj) else None)"

subsection \<open>Sampling one variate\<close>

definition getRandDisc :: "JNIEnv \<Rightarrow> jobject \<Rightarrow> jdouble \<Rightarrow> addr \<Rightarrow> world \<Rightarrow> (int \<times> world) option" where
  "getRandDisc env obj u np w = do {
     npv \<leftarrow> native_params w np;
     let gp = uw_params (np_urng npv);
     w \<leftarrow> store gp (\<lambda>b. b\<lparr>gp_env := env\<rparr>) w;
     w \<leftarrow> store gp (\<lambda>b. b\<lparr>gp_u := u\<rparr>) w;
     w \<leftarrow> store (uw_params (np_urng npv)) (\<lambda>b. b\<lparr>gp_unif := F_cons\<rparr>) w;
     let gp = uw_params (np_urng_aux npv);
     w \<leftarrow> store gp (\<lambda>b. b\<lparr>gp_env := env\<rparr>) w;
     w \<leftarrow> store (uw_params (np_urng_aux npv)) (\<lambda>b. b\<lparr>gp_unif := F_unif\<rparr>) w;
     unur_sample_discr (np_unurgen npv) w
   }"

definition getRandCont :: "JNIEnv \<Rightarrow> jobject \<Rightarrow> jdouble \<Rightarrow> addr \<Rightarrow> world \<Rightarrow> (jdouble \<times> world) option" where
  "getRandCont env obj u np w = do {
     npv \<leftarrow> native_params w np;
     let gp = uw_params (np_urng npv);
     w \<leftarrow> store gp (\<lambda>b. b\<lparr>gp_env := env\<rparr>) w;
     w \<leftarrow> store gp (\<lambda>b. b\<lparr>gp_u := u\<rparr>) w;
     w \<leftarrow> store (uw_params (np_urng npv)) (\<lambda>b. b\<lparr>gp_unif := F_cons\<rparr>) w;
     let gp = uw_params (np_urng_aux npv);
     w \<leftarrow> store gp (\<lambda>b. b\<lparr>gp_env := env\<rparr>) w;
     w \<leftarrow> store (uw_params (np_urng_aux npv)) (\<lambda>b. b\<lparr>gp_unif := F_unif\<rparr>) w;
     unur_sample_cont (np_unurgen npv) w
   }"

definition getRandVec :: "JNIEnv \<Rightarrow> jobject \<Rightarrow> jdouble \<Rightarrow> addr \<Rightarrow> jobject \<Rightarrow> world \<Rightarrow> world option" where
  "getRandVec env obj u np jvec w = do {
     npv \<leftarrow> native_params w np;
     let gp = uw_params (np_urng npv);
     w \<leftarrow> store gp (\<lambda>b. b\<lparr>gp_u := u\<rparr>) w;
     w \<leftarrow> store (uw_params (np_urng npv)) (\<lambda>b. b\<lparr>gp_unif := F_cons\<rparr>) w;
     w \<leftarrow> store gp (\<lambda>b. b\<lparr>gp_env := env\<rparr>) w;
     let gp = uw_params (np_urng_aux npv);
     w \<leftarrow> store gp (\<lambda>b. b\<lparr>gp_env := env\<rparr>) w;
     w \<leftarrow> store (uw_params (np_urng_aux npv)) (\<lambda>b. b\<lparr>gp_unif := F_unif\<rparr>) w;
     len \<leftarrow> GetArrayLength jvec w;
     if len < np_dim npv then
       (case FindClass ''umontreal/ssj/randvar/UnuranException'' w of
          (expcls, w) \<Rightarrow>
            if \<not> expcls then Some w
            else Some (ThrowNew ''umontreal/ssj/randvar/UnuranException'' ''array too short'' w))
     else do {
       (vec, w) \<leftarrow> GetDoubleArrayElements jvec w;
       if vec = 0 then Some w
       else do {
         w \<leftarrow> unur_sample_vec (np_unurgen npv) vec w;
         Some (ReleaseDoubleArrayElements jvec vec w)
       }
     }
   }"

subsection \<open>Sampling an array of variates\<close>

text \<open>
  The loops \<^verbatim>\<open>for (i = 0; i < n; i++) v[start+i] = unur_sample_... (np->unurgen)\<close>, from
  the value \<open>i\<close> of the counter on.
\<close>

function discr_loop :: "addr \<Rightarrow> jobject \<Rightarrow> int \<Rightarrow> int \<Rightarrow> int \<Rightarrow> world \<Rightarrow> world option" where
  "discr_loop np v start n i w =
     (if i < n then do {
        npv \<leftarrow> native_params w np;
        (x, w) \<leftarrow> unur_sample_discr (np_unurgen npv) w;
        w \<leftarrow> write_int v (start + i) x w;
        discr_loop np v start n (i + 1) w
      } else Some w)"
  by pat_completeness auto
termination
  by (relation "measure (\<lambda>(np, v, start, n, i, w). nat (n - i))") auto

function cont_loop :: "addr \<Rightarrow> jobject \<Rightarrow> int \<Rightarrow> int \<Rightarrow> int \<Rightarrow> world \<Rightarrow> world option" where
  "cont_loop np v start n i w =
     (if i < n then do {
        npv \<leftarrow> native_params w np;
        (x, w) \<leftarrow> unur_sample_cont (np_unurgen npv) w;
        w \<leftarrow> write_double v (start + i) x w;
        cont_loop np v start n (i + 1) w
      } else Some w)"
  by pat_completeness auto
termination
  by (relation "measure (\<lambda>(np, v, start, n, i, w). nat (n - i))") auto

text \<open>
  The part of the two array functions before the loop. It gives the pointers \<open>gp\<close>, \<open>u\<close>
  and \<open>uaux\<close> that the code holds in local variables when the loop starts. The two
  functions have the same text here.
\<close>

definition array_setup ::
  "JNIEnv \<Rightarrow> addr \<Rightarrow> jobject \<Rightarrow> jobject \<Rightarrow> int \<Rightarrow> world \<Rightarrow> ((addr \<times> jobject \<times> jobject) \<times> world) option" where
  "array_setup env np ju juaux n w = do {
     npv \<leftarrow> native_params w np;
     let gp = uw_params (np_urng npv);
     w \<leftarrow> store gp (\<lambda>b. b\<lparr>gp_env := env\<rparr>) w;
     w \<leftarrow> store gp (\<lambda>b. b\<lparr>gp_junifArray := ju\<rparr>) w;
     (u, w) \<leftarrow> GetDoubleArrayElements ju w;
     w \<leftarrow> store gp (\<lambda>b. b\<lparr>gp_unifArray := u\<rparr>) w;
     w \<leftarrow> store gp (\<lambda>b. b\<lparr>gp_nextIndex := n\<rparr>) w;
     w \<leftarrow> store gp (\<lambda>b. b\<lparr>gp_n := n\<rparr>) w;
     w \<leftarrow> store (uw_params (np_urng npv)) (\<lambda>b. b\<lparr>gp_unif := F_arr\<rparr>) w;
     let gp = uw_params (np_urng_aux npv);
     if juaux \<noteq> 0 then do {
       w \<leftarrow> store gp (\<lambda>b. b\<lparr>gp_env := env\<rparr>) w;
       w \<leftarrow> store gp (\<lambda>b. b\<lparr>gp_junifArray := juaux\<rparr>) w;
       (uaux, w) \<leftarrow> GetDoubleArrayElements juaux w;
       w \<leftarrow> store gp (\<lambda>b. b\<lparr>gp_unifArray := uaux\<rparr>) w;
       w \<leftarrow> store gp (\<lambda>b. b\<lparr>gp_nextIndex := n\<rparr>) w;
       w \<leftarrow> store gp (\<lambda>b. b\<lparr>gp_n := n\<rparr>) w;
       w \<leftarrow> store (uw_params (np_urng npv)) (\<lambda>b. b\<lparr>gp_unif := F_arr\<rparr>) w;
       Some ((gp, u, uaux), w)
     } else do {
       w \<leftarrow> store_np np (\<lambda>b. b\<lparr>np_urng_aux := (np_urng_aux b)\<lparr>uw_params := uw_params (np_urng b)\<rparr>\<rparr>) w;
       Some ((gp, u, 0), w)
     }
   }"

text \<open>The part of the two array functions after the loop and after the release of \<open>jv\<close>.\<close>

definition array_finish ::
  "addr \<Rightarrow> jobject \<Rightarrow> jobject \<Rightarrow> addr \<times> jobject \<times> jobject \<Rightarrow> world \<Rightarrow> world option" where
  "array_finish np ju juaux loc w =
     (case loc of (gp, u, uaux) \<Rightarrow> do {
        w \<leftarrow> (if juaux \<noteq> 0 then Some (ReleaseDoubleArrayElements juaux uaux w)
              else store_np np (\<lambda>b. b\<lparr>np_urng_aux := (np_urng_aux b)\<lparr>uw_params := gp\<rparr>\<rparr>) w);
        Some (ReleaseDoubleArrayElements ju u w)
      })"

definition getRandDiscArray ::
  "JNIEnv \<Rightarrow> jobject \<Rightarrow> addr \<Rightarrow> jobject \<Rightarrow> jobject \<Rightarrow> jobject \<Rightarrow> int \<Rightarrow> int \<Rightarrow> world \<Rightarrow> world option" where
  "getRandDiscArray env obj np ju juaux jv start n w = do {
     (loc, w) \<leftarrow> array_setup env np ju juaux n w;
     (v, w) \<leftarrow> GetIntArrayElements jv w;
     w \<leftarrow> discr_loop np v start n 0 w;
     let w = ReleaseIntArrayElements jv v w;
     array_finish np ju juaux loc w
   }"

definition getRandContArray ::
  "JNIEnv \<Rightarrow> jobject \<Rightarrow> addr \<Rightarrow> jobject \<Rightarrow> jobject \<Rightarrow> jobject \<Rightarrow> int \<Rightarrow> int \<Rightarrow> world \<Rightarrow> world option" where
  "getRandContArray env obj np ju juaux jv start n w = do {
     (loc, w) \<leftarrow> array_setup env np ju juaux n w;
     (v, w) \<leftarrow> GetDoubleArrayElements jv w;
     w \<leftarrow> cont_loop np v start n 0 w;
     let w = ReleaseDoubleArrayElements jv v w;
     array_finish np ju juaux loc w
   }"

subsection \<open>Allocation and release\<close>

text \<open>
  \<^verbatim>\<open>malloc (sizeof (struct GenParams))\<close>. The new block holds what \<open>fresh_block\<close> says,
  and in its field \<^verbatim>\<open>env\<close> no interface pointer that can be used.
\<close>

definition malloc_GenParams :: "world \<Rightarrow> addr \<times> world" where
  "malloc_GenParams w =
     (case request w of
        (ok, w') \<Rightarrow>
          if ok
          then (next_addr w',
                w'\<lparr>gen_params := (gen_params w')(next_addr w' \<mapsto>
                                     (fresh_block w')\<lparr>gp_env := 0\<rparr>),
                   next_addr := next_addr w' + 1\<rparr>)
          else (0, w'))"

definition malloc_NativeParams :: "world \<Rightarrow> addr \<times> world" where
  "malloc_NativeParams w =
     (case request w of
        (ok, w') \<Rightarrow>
          if ok
          then (next_addr w',
                w'\<lparr>native_params := (native_params w')(next_addr w' \<mapsto>
                       \<lparr>np_unurgen = 0, np_objMainStream = 0, np_objAuxStream = 0,
                        np_urng = \<lparr>uw_urng = 0, uw_params = 0\<rparr>,
                        np_urng_aux = \<lparr>uw_urng = 0, uw_params = 0\<rparr>, np_dim = 0\<rparr>),
                   next_addr := next_addr w' + 1\<rparr>)
          else (0, w'))"

definition free_GenParams :: "addr \<Rightarrow> world \<Rightarrow> world option" where
  "free_GenParams p w =
     (case gen_params w p of
        None \<Rightarrow> None
      | Some b \<Rightarrow> Some (w\<lparr>gen_params := (gen_params w)(p := None)\<rparr>))"

definition free_NativeParams :: "addr \<Rightarrow> world \<Rightarrow> world option" where
  "free_NativeParams p w =
     (case native_params w p of
        None \<Rightarrow> None
      | Some b \<Rightarrow> Some (w\<lparr>native_params := (native_params w)(p := None)\<rparr>))"

text \<open>
  \<^verbatim>\<open>unur_urng_new (unif_wrapper, params)\<close> and \<^verbatim>\<open>unur_urng_free\<close>; \<^verbatim>\<open>unur_free\<close>, which
  accepts \<^verbatim>\<open>NULL\<close>.
\<close>

definition unur_urng_new :: "addr \<Rightarrow> world \<Rightarrow> addr \<times> world" where
  "unur_urng_new params w =
     (case request w of
        (ok, w') \<Rightarrow>
          if ok
          then (next_addr w',
                w'\<lparr>urngs := (urngs w')(next_addr w' \<mapsto> params),
                   next_addr := next_addr w' + 1\<rparr>)
          else (0, w'))"

definition unur_urng_free :: "addr \<Rightarrow> world \<Rightarrow> world option" where
  "unur_urng_free g w =
     (case urngs w g of
        None \<Rightarrow> None
      | Some p \<Rightarrow> Some (w\<lparr>urngs := (urngs w)(g := None)\<rparr>))"

definition unur_free :: "addr \<Rightarrow> world \<Rightarrow> world option" where
  "unur_free g w =
     (if g = 0 then Some w
      else (case gens w g of
              None \<Rightarrow> None
            | Some gen \<Rightarrow> Some (w\<lparr>gens := (gens w)(g := None)\<rparr>)))"

text \<open>
  \<^verbatim>\<open>unur_str2gen\<close>: a new generator object, bound to the default uniform generator of the
  library, or \<^verbatim>\<open>NULL\<close> with the error recorded.
\<close>

definition unur_str2gen :: "string \<Rightarrow> world \<Rightarrow> addr \<times> world" where
  "unur_str2gen str w =
     (case str2gen w str of
        Inl err \<Rightarrow> (0, w\<lparr>unur_errno := err\<rparr>)
      | Inr gen \<Rightarrow>
          (next_addr w,
           w\<lparr>gens := (gens w)(next_addr w \<mapsto>
                  gen\<lparr>gen_urng := unur_default_urng w, gen_urng_aux := unur_default_urng w\<rparr>),
             next_addr := next_addr w + 1\<rparr>))"

definition unur_chg_urng :: "addr \<Rightarrow> addr \<Rightarrow> world \<Rightarrow> world option" where
  "unur_chg_urng g urng w =
     (case gens w g of
        None \<Rightarrow> None
      | Some gen \<Rightarrow> Some (w\<lparr>gens := (gens w)(g \<mapsto> gen\<lparr>gen_urng := urng\<rparr>)\<rparr>))"

definition unur_chg_urng_aux :: "addr \<Rightarrow> addr \<Rightarrow> world \<Rightarrow> world option" where
  "unur_chg_urng_aux g urng w =
     (case gens w g of
        None \<Rightarrow> None
      | Some gen \<Rightarrow> Some (w\<lparr>gens := (gens w)(g \<mapsto> gen\<lparr>gen_urng_aux := urng\<rparr>)\<rparr>))"

definition unur_get_dimension :: "addr \<Rightarrow> world \<Rightarrow> int option" where
  "unur_get_dimension g w = (case gens w g of None \<Rightarrow> None | Some gen \<Rightarrow> Some (gen_dim gen))"

text \<open>
  A global reference names the object it refers to; \<open>global_refs\<close> holds the references
  that were made and not yet deleted.
\<close>

definition NewGlobalRef :: "jobject \<Rightarrow> world \<Rightarrow> jobject \<times> world" where
  "NewGlobalRef ob w =
     (case request w of
        (ok, w') \<Rightarrow> if ok then (ob, w'\<lparr>global_refs := ob # global_refs w'\<rparr>) else (0, w'))"

definition DeleteGlobalRef :: "jobject \<Rightarrow> world \<Rightarrow> world option" where
  "DeleteGlobalRef r w =
     (if r \<in> set (global_refs w) then Some (w\<lparr>global_refs := remove1 r (global_refs w)\<rparr>)
      else None)"

subsection \<open>Creating and destroying the structure of a uniform generator\<close>

text \<open>
  The three structures of type UrngWithParams to which the code takes a pointer:
  \<^verbatim>\<open>&default_urng\<close>, \<^verbatim>\<open>&np->urng\<close> and \<^verbatim>\<open>&np->urng_aux\<close>; and the null pointer.
\<close>

datatype gen_ref = NullGen | DefaultUrng | MainOf addr | AuxOf addr

definition load_gen :: "gen_ref \<Rightarrow> world \<Rightarrow> UrngWithParams option" where
  "load_gen r w =
     (case r of
        NullGen \<Rightarrow> None
      | DefaultUrng \<Rightarrow> Some (default_urng w)
      | MainOf np \<Rightarrow> map_option np_urng (native_params w np)
      | AuxOf np \<Rightarrow> map_option np_urng_aux (native_params w np))"

definition store_gen :: "gen_ref \<Rightarrow> (UrngWithParams \<Rightarrow> UrngWithParams) \<Rightarrow> world \<Rightarrow> world option" where
  "store_gen r f w =
     (case r of
        NullGen \<Rightarrow> None
      | DefaultUrng \<Rightarrow> Some (w\<lparr>default_urng := f (default_urng w)\<rparr>)
      | MainOf np \<Rightarrow> store_np np (\<lambda>b. b\<lparr>np_urng := f (np_urng b)\<rparr>) w
      | AuxOf np \<Rightarrow> store_np np (\<lambda>b. b\<lparr>np_urng_aux := f (np_urng_aux b)\<rparr>) w)"

definition urng_jni_destroy :: "gen_ref \<Rightarrow> world \<Rightarrow> world option" where
  "urng_jni_destroy gen w =
     (if gen = NullGen then Some w
      else do {
        g \<leftarrow> load_gen gen w;
        w \<leftarrow> (if uw_params g \<noteq> 0 then do {
                w \<leftarrow> free_GenParams (uw_params g) w;
                store_gen gen (\<lambda>g. g\<lparr>uw_params := 0\<rparr>) w
              } else Some w);
        g \<leftarrow> load_gen gen w;
        if uw_urng g \<noteq> 0 then do {
          w \<leftarrow> unur_urng_free (uw_urng g) w;
          store_gen gen (\<lambda>g. g\<lparr>uw_urng := 0\<rparr>) w
        } else Some w
      })"

definition urng_jni_create :: "gen_ref \<Rightarrow> world \<Rightarrow> world option" where
  "urng_jni_create gen w =
     (case malloc_GenParams w of
        (p, w) \<Rightarrow> do {
          w \<leftarrow> store_gen gen (\<lambda>g. g\<lparr>uw_params := p\<rparr>) w;
          if p = 0 then urng_jni_destroy gen w
          else do {
            w \<leftarrow> store p (\<lambda>b. b\<lparr>gp_unif := F_unif\<rparr>) w;
            (case unur_urng_new p w of
               (u, w) \<Rightarrow> do {
                 w \<leftarrow> store_gen gen (\<lambda>g. g\<lparr>uw_urng := u\<rparr>) w;
                 if u = 0 then urng_jni_destroy gen w else Some w
               })
          }
        })"

subsection \<open>Class initialisation\<close>

text \<open>
  \<^verbatim>\<open>GetFieldID\<close> and \<^verbatim>\<open>GetMethodID\<close> behind the test \<^verbatim>\<open>!id && !(id = Get...ID (...))\<close>: the
  identifier is looked up when it is not cached yet, and an exception is pending when
  the member is not found, of the class \<open>err\<close>: \<^verbatim>\<open>NoSuchFieldError\<close> for a field and
  \<^verbatim>\<open>NoSuchMethodError\<close> for a method. The result is the new value of the cached identifier.
\<close>

definition cached_id :: "bool \<Rightarrow> string \<Rightarrow> string \<Rightarrow> world \<Rightarrow> bool \<times> world" where
  "cached_id cached err name w =
     (if cached then (True, w)
      else if member_found w name then (True, w)
      else (False, w\<lparr>pending := Some (Throwable err name)\<rparr>))"

definition initClass_ids :: "world \<Rightarrow> bool \<times> world" where
  "initClass_ids w =
     (case FindClass ''umontreal/ssj/randvar/RandUnuran'' w of
        (cls, w) \<Rightarrow>
          if \<not> cls then (False, w)
          else (case cached_id (fidNativeParams w) ''java/lang/NoSuchFieldError''
                   ''nativeParams'' w of
            (r, w) \<Rightarrow> let w = w\<lparr>fidNativeParams := r\<rparr> in
              if \<not> r then (False, w)
              else (case cached_id (fidMainStream w) ''java/lang/NoSuchFieldError''
                   ''mainStream'' w of
                (r, w) \<Rightarrow> let w = w\<lparr>fidMainStream := r\<rparr> in
                  if \<not> r then (False, w)
                  else (case cached_id (fidAuxStream w) ''java/lang/NoSuchFieldError''
                   ''auxStream'' w of
                    (r, w) \<Rightarrow> let w = w\<lparr>fidAuxStream := r\<rparr> in
                      if \<not> r then (False, w)
                      else (case FindClass ''umontreal/ssj/rng/RandomStream'' w of
                        (cls, w) \<Rightarrow>
                          if \<not> cls then (False, w)
                          else (case cached_id (midNextDouble w) ''java/lang/NoSuchMethodError''
                                         ''nextDouble'' w of
                            (r, w) \<Rightarrow> let w = w\<lparr>midNextDouble := r\<rparr> in
                              if \<not> r then (False, w)
                              else (case cached_id (midNextArrayOfDouble w)
                                           ''java/lang/NoSuchMethodError''
                                           ''nextArrayOfDouble'' w of
                                (r, w) \<Rightarrow> let w = w\<lparr>midNextArrayOfDouble := r\<rparr> in
                                  if \<not> r then (False, w) else (True, w))))))))"

definition initClass :: "world \<Rightarrow> (bool \<times> world) option" where
  "initClass w =
     (if uw_urng (default_urng w) = 0 then do {
        w \<leftarrow> urng_jni_create DefaultUrng w;
        if uw_urng (default_urng w) = 0 then
          (case FindClass ''umontreal/ssj/randvar/UnuranException'' w of
             (cls, w) \<Rightarrow>
               if \<not> cls then Some (False, w)
               else Some (False, ThrowNew ''umontreal/ssj/randvar/UnuranException''
                                   ''cannot create default uniform rng'' w))
        else Some (initClass_ids (w\<lparr>unur_default_urng := uw_urng (default_urng w)\<rparr>))
      } else Some (initClass_ids w))"

subsection \<open>Closing and initialising a RandUnuran object\<close>

text \<open>
  \<^verbatim>\<open>Java_umontreal_ssj_randvar_RandUnuran_close\<close>: \<^verbatim>\<open>ExceptionOccurred\<close> and
  \<^verbatim>\<open>ExceptionClear\<close> take the pending exception away, and \<^verbatim>\<open>Throw\<close> makes it pending
  again at each of the two exits. \<open>close_free\<close> is the part that frees the memory, from
  the first \<^verbatim>\<open>urng_jni_destroy\<close> to \<^verbatim>\<open>free (np)\<close>, and \<open>close_cleanup\<close> is that part
  followed by the \<^verbatim>\<open>SetLongField\<close> that clears the field \<^verbatim>\<open>nativeParams\<close>.
\<close>

definition close_free :: "addr \<Rightarrow> world \<Rightarrow> world option" where
  "close_free np w = do {
     w \<leftarrow> urng_jni_destroy (AuxOf np) w;
     w \<leftarrow> urng_jni_destroy (MainOf np) w;
     npv \<leftarrow> native_params w np;
     w \<leftarrow> unur_free (np_unurgen npv) w;
     w \<leftarrow> (if np_objAuxStream npv \<noteq> 0 then DeleteGlobalRef (np_objAuxStream npv) w
           else Some w);
     w \<leftarrow> (if np_objMainStream npv \<noteq> 0 then DeleteGlobalRef (np_objMainStream npv) w
           else Some w);
     free_NativeParams np w
   }"

definition close_cleanup :: "addr \<Rightarrow> jobject \<Rightarrow> world \<Rightarrow> world option" where
  "close_cleanup np obj w = do {
     w \<leftarrow> close_free np w;
     SetLongField_nativeParams obj 0 w
   }"

definition RandUnuran_close :: "JNIEnv \<Rightarrow> jobject \<Rightarrow> world \<Rightarrow> world option" where
  "RandUnuran_close env obj w = do {
     let ex = pending w;
     let w = w\<lparr>pending := None\<rparr>;
     np \<leftarrow> GetLongField_nativeParams obj w;
     if np = 0 then Some (case ex of None \<Rightarrow> w | Some e \<Rightarrow> w\<lparr>pending := Some e\<rparr>)
     else do {
       w \<leftarrow> close_cleanup np obj w;
       Some (case ex of None \<Rightarrow> w | Some e \<Rightarrow> w\<lparr>pending := Some e\<rparr>)
     }
   }"

text \<open>
  \<^verbatim>\<open>Java_umontreal_ssj_randvar_RandUnuran_init\<close>, written from its end to its start:
  the two global references (\<open>init_streams\<close>), before them the two uniform generators
  (\<open>init_urngs\<close>), before them the allocation of the structure NativeParams, which
  \<^verbatim>\<open>memset\<close> fills with zeros, and the creation of the UNURAN generator (\<open>init_handle\<close>),
  and first of all the class initialisation.
\<close>

definition init_streams :: "JNIEnv \<Rightarrow> jobject \<Rightarrow> addr \<Rightarrow> world \<Rightarrow> world option" where
  "init_streams env obj np w = do {
     ob \<leftarrow> GetObjectField_mainStream obj w;
     if ob = 0 then RandUnuran_close env obj w
     else (case NewGlobalRef ob w of
       (r, w) \<Rightarrow> do {
         w \<leftarrow> store_np np (\<lambda>b. b\<lparr>np_objMainStream := r\<rparr>) w;
         npv \<leftarrow> native_params w np;
         if np_objMainStream npv = 0 then RandUnuran_close env obj w
         else do {
           let gp = uw_params (np_urng npv);
           w \<leftarrow> store gp (\<lambda>b. b\<lparr>gp_rsObj := np_objMainStream npv\<rparr>) w;
           ob \<leftarrow> GetObjectField_auxStream obj w;
           if ob = 0 then RandUnuran_close env obj w
           else (case NewGlobalRef ob w of
             (r, w) \<Rightarrow> do {
               w \<leftarrow> store_np np (\<lambda>b. b\<lparr>np_objAuxStream := r\<rparr>) w;
               npv \<leftarrow> native_params w np;
               if np_objAuxStream npv = 0 then RandUnuran_close env obj w
               else do {
                 let gp = uw_params (np_urng_aux npv);
                 store gp (\<lambda>b. b\<lparr>gp_rsObj := np_objAuxStream npv\<rparr>) w
               }
             })
         }
       })
   }"

definition init_urngs :: "JNIEnv \<Rightarrow> jobject \<Rightarrow> addr \<Rightarrow> world \<Rightarrow> world option" where
  "init_urngs env obj np w = do {
     w \<leftarrow> urng_jni_create (MainOf np) w;
     npv \<leftarrow> native_params w np;
     if uw_urng (np_urng npv) = 0 then do {
       w \<leftarrow> RandUnuran_close env obj w;
       (case FindClass ''umontreal/ssj/randvar/UnuranException'' w of
          (expcls, w) \<Rightarrow>
            if \<not> expcls then Some w
            else Some (ThrowNew ''umontreal/ssj/randvar/UnuranException''
                         ''cannot allocate uniform random number generator'' w))
     } else do {
       let gp = uw_params (np_urng npv);
       w \<leftarrow> store gp (\<lambda>b. b\<lparr>gp_urng := uw_urng (np_urng npv)\<rparr>) w;
       w \<leftarrow> unur_chg_urng (np_unurgen npv) (uw_urng (np_urng npv)) w;
       w \<leftarrow> urng_jni_create (AuxOf np) w;
       npv \<leftarrow> native_params w np;
       if uw_urng (np_urng_aux npv) = 0 then do {
         w \<leftarrow> RandUnuran_close env obj w;
         (case FindClass ''umontreal/ssj/randvar/UnuranException'' w of
            (expcls, w) \<Rightarrow>
              if \<not> expcls then Some w
              else Some (ThrowNew ''umontreal/ssj/randvar/UnuranException''
                           ''cannot allocate uniform auxiliary random number generator.'' w))
       } else do {
         w \<leftarrow> unur_chg_urng_aux (np_unurgen npv) (uw_urng (np_urng_aux npv)) w;
         init_streams env obj np w
       }
     }
   }"

definition init_handle :: "JNIEnv \<Rightarrow> jobject \<Rightarrow> string \<Rightarrow> world \<Rightarrow> world option" where
  "init_handle env obj genStr w =
     (case malloc_NativeParams w of
       (np, w) \<Rightarrow>
         if np = 0 then
           (case FindClass ''umontreal/ssj/randvar/UnuranException'' w of
              (expcls, w) \<Rightarrow>
                if \<not> expcls then Some w
                else Some (ThrowNew ''umontreal/ssj/randvar/UnuranException''
                             ''cannot create UNURAN generator'' w))
         else do {
           w \<leftarrow> SetLongField_nativeParams obj np w;
           let gp = uw_params (default_urng w);
           w \<leftarrow> store gp (\<lambda>b. b\<lparr>gp_env := env\<rparr>) w;
           ob \<leftarrow> GetObjectField_mainStream obj w;
           w \<leftarrow> store gp (\<lambda>b. b\<lparr>gp_rsObj := ob\<rparr>) w;
           (case request w of
              (genStrUTF, w) \<Rightarrow>
                if \<not> genStrUTF then RandUnuran_close env obj w
                else (case unur_str2gen genStr w of
                  (g, w) \<Rightarrow> do {
                    w \<leftarrow> store_np np (\<lambda>b. b\<lparr>np_unurgen := g\<rparr>) w;
                    npv \<leftarrow> native_params w np;
                    if np_unurgen npv = 0 then
                      (let unurerr = unur_errno w;
                           errmsg = ''cannot create UNURAN generator: '' in
                       case FindClass ''umontreal/ssj/randvar/UnuranException'' w of
                         (expcls, w) \<Rightarrow>
                           if \<not> expcls then RandUnuran_close env obj w
                           else (case request w of
                             (errstr, w) \<Rightarrow>
                               if \<not> errstr then do {
                                 w \<leftarrow> RandUnuran_close env obj w;
                                 Some (ThrowNew ''umontreal/ssj/randvar/UnuranException''
                                         errmsg w)
                               } else do {
                                 w \<leftarrow> RandUnuran_close env obj w;
                                 Some (ThrowNew ''umontreal/ssj/randvar/UnuranException''
                                         (errmsg @ unurerr) w)
                               }))
                    else do {
                      d \<leftarrow> unur_get_dimension (np_unurgen npv) w;
                      w \<leftarrow> store_np np (\<lambda>b. b\<lparr>np_dim := d\<rparr>) w;
                      init_urngs env obj np w
                    }
                  }))
         })"

definition RandUnuran_init :: "JNIEnv \<Rightarrow> jobject \<Rightarrow> string \<Rightarrow> world \<Rightarrow> world option" where
  "RandUnuran_init env obj genStr w = do {
     (ok, w) \<leftarrow> initClass w;
     if \<not> ok then Some w else init_handle env obj genStr w
   }"

subsection \<open>Observations\<close>

text \<open>
  The function to which the pointer \<^verbatim>\<open>unif\<close> of a block points, in a world and in the
  result of a call; the calls on the streams and the pending exception in the result of
  a call.
\<close>

definition mode_of :: "addr \<Rightarrow> world \<Rightarrow> unif_ptr option" where
  "mode_of p w = map_option gp_unif (gen_params w p)"

definition mode_after :: "addr \<Rightarrow> world option \<Rightarrow> unif_ptr option" where
  "mode_after p r = (case r of None \<Rightarrow> None | Some w \<Rightarrow> mode_of p w)"

definition calls_after :: "world option \<Rightarrow> stream_call list option" where
  "calls_after r = map_option calls r"

text \<open>
  The invariant of a structure UrngWithParams, and of all such structures in the
  structures NativeParams of a world: the generator is null exactly when the parameter
  block is.
\<close>

definition adapter_inv :: "UrngWithParams \<Rightarrow> bool" where
  "adapter_inv g = ((uw_urng g = 0) = (uw_params g = 0))"

definition adapters_inv :: "world \<Rightarrow> bool" where
  "adapters_inv w \<longleftrightarrow>
     (\<forall>np npv. native_params w np = Some npv \<longrightarrow>
        adapter_inv (np_urng npv) \<and> adapter_inv (np_urng_aux npv))"

text \<open>
  What the initialisation expects of the world it starts in: no exception is pending
  when the virtual machine enters the native method, \<^verbatim>\<open>malloc\<close> never returns the
  address 0, and the default uniform generator, when it exists, has a live parameter
  block that was allocated before.
\<close>

definition init_ready :: "world \<Rightarrow> bool" where
  "init_ready w \<longleftrightarrow>
     pending w = None \<and>
     0 < next_addr w \<and>
     (uw_urng (default_urng w) \<noteq> 0 \<longrightarrow>
        uw_params (default_urng w) < next_addr w \<and>
        uw_urng (default_urng w) < next_addr w \<and>
        gen_params w (uw_params (default_urng w)) \<noteq> None)"

text \<open>
  \<open>no_new_blocks w w'\<close>: every block, generator and global reference that is live in \<open>w'\<close>
  was live in \<open>w\<close>, the default uniform generator of the process apart.
\<close>

definition no_new_blocks :: "world \<Rightarrow> world \<Rightarrow> bool" where
  "no_new_blocks w w' \<longleftrightarrow>
     (\<forall>a. native_params w a = None \<longrightarrow> native_params w' a = None) \<and>
     (\<forall>a. gens w a = None \<longrightarrow> gens w' a = None) \<and>
     global_refs w' = global_refs w \<and>
     (\<forall>a. a \<noteq> uw_params (default_urng w') \<longrightarrow> gen_params w a = None \<longrightarrow>
          gen_params w' a = None) \<and>
     (\<forall>a. a \<noteq> uw_urng (default_urng w') \<longrightarrow> urngs w a = None \<longrightarrow> urngs w' a = None)"

text \<open>
  \<open>handle_ready obj w\<close>: the object holds a fully constructed structure NativeParams: a
  live UNURAN generator bound to two live uniform generators, which are distinct, call
  \<^verbatim>\<open>unif_wrapper\<close> on their own parameter block, are in the mode \<^verbatim>\<open>unif\<close> and draw from the
  two streams, to which the structure holds global references.
\<close>

definition handle_ready :: "jobject \<Rightarrow> world \<Rightarrow> bool" where
  "handle_ready obj w \<longleftrightarrow>
     nativeParams w obj \<noteq> 0 \<and>
     (case native_params w (nativeParams w obj) of
        None \<Rightarrow> False
      | Some npv \<Rightarrow>
          np_unurgen npv \<noteq> 0 \<and>
          uw_urng (np_urng npv) \<noteq> 0 \<and> uw_params (np_urng npv) \<noteq> 0 \<and>
          uw_urng (np_urng_aux npv) \<noteq> 0 \<and> uw_params (np_urng_aux npv) \<noteq> 0 \<and>
          uw_urng (np_urng npv) \<noteq> uw_urng (np_urng_aux npv) \<and>
          uw_params (np_urng npv) \<noteq> uw_params (np_urng_aux npv) \<and>
          np_objMainStream npv = mainStream w obj \<and> np_objMainStream npv \<noteq> 0 \<and>
          np_objAuxStream npv = auxStream w obj \<and> np_objAuxStream npv \<noteq> 0 \<and>
          urngs w (uw_urng (np_urng npv)) = Some (uw_params (np_urng npv)) \<and>
          urngs w (uw_urng (np_urng_aux npv)) = Some (uw_params (np_urng_aux npv)) \<and>
          map_option gen_urng (gens w (np_unurgen npv)) = Some (uw_urng (np_urng npv)) \<and>
          map_option gen_urng_aux (gens w (np_unurgen npv)) = Some (uw_urng (np_urng_aux npv)) \<and>
          map_option gen_dim (gens w (np_unurgen npv)) = Some (np_dim npv) \<and>
          mode_of (uw_params (np_urng npv)) w = Some F_unif \<and>
          mode_of (uw_params (np_urng_aux npv)) w = Some F_unif \<and>
          map_option gp_rsObj (gen_params w (uw_params (np_urng npv))) = Some (np_objMainStream npv) \<and>
          map_option gp_rsObj (gen_params w (uw_params (np_urng_aux npv))) = Some (np_objAuxStream npv) \<and>
          (\<exists>rest. global_refs w = np_objAuxStream npv # np_objMainStream npv # rest))"

subsection \<open>A concrete world\<close>

text \<open>
  One RandUnuran object, number 1, with the streams 10 and 11, before and after its
  initialisation with a generator string that UNURAN accepts. The generator has
  dimension 3; its discrete routine draws one uniform from each generator.
\<close>

definition example_gen :: UNUR_GEN where
  "example_gen =
     \<lparr>gen_urng = 0, gen_urng_aux = 0, gen_dim = 3,
      gen_discr = Draw Primary (\<lambda>x. Draw Auxiliary (\<lambda>y. Return (if x \<le> y then 1 else 0))),
      gen_cont = Draw Primary (\<lambda>x. Return x),
      gen_vec = Draw Primary (\<lambda>x. Draw Primary (\<lambda>y. Return [x, y, x]))\<rparr>"

definition example_block :: GenParams where
  "example_block =
     \<lparr>gp_env = 0, gp_rsObj = 0, gp_u = 0, gp_urng = 0, gp_junifArray = 0, gp_unifArray = 0,
      gp_n = 0, gp_nextIndex = 0, gp_unif = F_arr\<rparr>"

definition example_fresh :: world where
  "example_fresh =
     \<lparr>gen_params = Map.empty, urngs = Map.empty, gens = Map.empty,
      native_params = Map.empty, next_addr = 1,
      default_urng = \<lparr>uw_urng = 0, uw_params = 0\<rparr>, unur_default_urng = 0,
      fidNativeParams = False, fidMainStream = False, fidAuxStream = False,
      midNextDouble = False, midNextArrayOfDouble = False,
      nativeParams = (\<lambda>obj. 0), mainStream = (\<lambda>obj. 10), auxStream = (\<lambda>obj. 11),
      streams = [10 \<mapsto> (\<lambda>i. real i), 11 \<mapsto> (\<lambda>i. 100 + real i)],
      double_arrays = [20 \<mapsto> [0, 0, 0], 21 \<mapsto> [0, 0, 0], 22 \<mapsto> [0, 0]],
      int_arrays = [30 \<mapsto> [0, 0, 0]],
      global_refs = [], pending = None, calls = [], sample_calls = 0, grants = [],
      class_found = (\<lambda>name. True), member_found = (\<lambda>name. True),
      str2gen = (\<lambda>str. if str = ''ok'' then Inr example_gen else Inl ''syntax error''),
      unur_errno = [], fresh_block = example_block\<rparr>"

definition example_ready :: world where
  "example_ready =
     example_fresh
       \<lparr>gen_params :=
          [1 \<mapsto> example_block\<lparr>gp_unif := F_unif, gp_env := 7, gp_rsObj := 10\<rparr>,
           5 \<mapsto> example_block\<lparr>gp_unif := F_unif, gp_urng := 6, gp_rsObj := 10\<rparr>,
           7 \<mapsto> example_block\<lparr>gp_unif := F_unif, gp_rsObj := 11\<rparr>],
        urngs := [2 \<mapsto> 1, 6 \<mapsto> 5, 8 \<mapsto> 7],
        gens := [4 \<mapsto> example_gen\<lparr>gen_urng := 6, gen_urng_aux := 8\<rparr>],
        native_params :=
          [3 \<mapsto> \<lparr>np_unurgen = 4, np_objMainStream = 10, np_objAuxStream = 11,
                 np_urng = \<lparr>uw_urng = 6, uw_params = 5\<rparr>,
                 np_urng_aux = \<lparr>uw_urng = 8, uw_params = 7\<rparr>, np_dim = 3\<rparr>],
        next_addr := 9,
        default_urng := \<lparr>uw_urng = 2, uw_params = 1\<rparr>, unur_default_urng := 2,
        fidNativeParams := True, fidMainStream := True, fidAuxStream := True,
        midNextDouble := True, midNextArrayOfDouble := True,
        nativeParams := (\<lambda>obj. 0)(1 := 3),
        global_refs := [11, 10]\<rparr>"

text \<open>
  The same object after the call \<^verbatim>\<open>getRandDisc (1/2)\<close>, which stored the interface pointer
  7 in the blocks of both generators, gave the number \<open>1/2\<close> to the main generator and
  took one number from the auxiliary stream.
\<close>

definition example_used :: world where
  "example_used =
     example_ready
       \<lparr>gen_params :=
          [1 \<mapsto> example_block\<lparr>gp_unif := F_unif, gp_env := 7, gp_rsObj := 10\<rparr>,
           5 \<mapsto> example_block\<lparr>gp_unif := F_unif, gp_env := 7, gp_u := 1/2, gp_urng := 6,
                               gp_rsObj := 10\<rparr>,
           7 \<mapsto> example_block\<lparr>gp_unif := F_unif, gp_env := 7, gp_rsObj := 11\<rparr>],
        streams := [10 \<mapsto> (\<lambda>i. real i), 11 \<mapsto> (\<lambda>i. 100 + real (Suc i))],
        calls := [NextDouble 11], sample_calls := 1\<rparr>"

section \<open>Properties\<close>

subsection \<open>The three modes of a uniform generator\<close>

lemma arr_in_range:
  assumes "gen_params w p = Some b" "gp_unif b = F_arr" "gp_nextIndex b = int i" "int i < gp_n b"
    "double_arrays w (gp_unifArray b) = Some xs" "i < length xs"
  shows "unif_wrapper p w = Some (xs ! i, w\<lparr>gen_params := (gen_params w)(p \<mapsto> b\<lparr>gp_nextIndex := int (Suc i)\<rparr>)\<rparr>)"
  using assms by (simp add: unif_wrapper_def arr_def ac_simps)

lemma pulls_arr_in_range:
  assumes "gen_params w p = Some b" "gp_unif b = F_arr" "gp_nextIndex b = int i" "int (i + k) \<le> gp_n b"
    "double_arrays w (gp_unifArray b) = Some xs" "i + k \<le> length xs"
  shows "pulls k p w = Some (take k (drop i xs), w\<lparr>gen_params := (gen_params w)(p \<mapsto> b\<lparr>gp_nextIndex := int (i + k)\<rparr>)\<rparr>)"
  using assms
proof (induction k arbitrary: w b i)
  case 0
  have "b\<lparr>gp_nextIndex := int i\<rparr> = b" using 0 by simp
  then show ?case using 0 by (simp add: map_upd_triv)
next
  case (Suc k)
  let ?w = "w\<lparr>gen_params := (gen_params w)(p \<mapsto> b\<lparr>gp_nextIndex := int (Suc i)\<rparr>)\<rparr>"
  have s: "unif_wrapper p w = Some (xs ! i, ?w)"
    using Suc.prems by (intro arr_in_range) auto
  have "pulls k p ?w = Some (take k (drop (Suc i) xs), ?w\<lparr>gen_params := (gen_params ?w)(p \<mapsto> (b\<lparr>gp_nextIndex := int (Suc i)\<rparr>)\<lparr>gp_nextIndex := int (Suc i + k)\<rparr>)\<rparr>)"
    using Suc.prems by (intro Suc.IH) auto
  then have r: "pulls k p ?w = Some (take k (drop (Suc i) xs), w\<lparr>gen_params := (gen_params w)(p \<mapsto> b\<lparr>gp_nextIndex := int (i + Suc k)\<rparr>)\<rparr>)"
    by simp
  have d: "xs ! i # take k (drop (Suc i) xs) = take (Suc k) (drop i xs)"
    using Suc.prems by (simp add: Cons_nth_drop_Suc[symmetric] del: Cons_nth_drop_Suc)
  show ?case by (simp only: pulls.simps s r d option.case prod.case)
qed

lemma arr_refill_pull:
  assumes "gen_params w p = Some b" "gp_unif b = F_arr" "gp_n b = int n" "gp_nextIndex b = int n" "0 < n"
    "double_arrays w (gp_junifArray b) = Some buf" "length buf = n"
    "streams w (gp_rsObj b) = Some s" "grants w = []" "gp_env b \<noteq> 0"
  shows "unif_wrapper p w = Some (s 0,
     w\<lparr>gen_params := (gen_params w)(p \<mapsto> b\<lparr>gp_unifArray := gp_junifArray b, gp_nextIndex := 1\<rparr>),
       streams := (streams w)(gp_rsObj b \<mapsto> (\<lambda>i. s (i + n))),
       double_arrays := (double_arrays w)(gp_junifArray b \<mapsto> map s [0..<n]),
       calls := calls w @ [NextArrayOfDouble (gp_rsObj b) (gp_junifArray b) 0 (int n)]\<rparr>)"
proof -
  have m: "map s [0..<n] ! 0 = s 0" using assms(5) by (simp add: nth_map_upt)
  show ?thesis
    using assms m
    by (simp add: unif_wrapper_def arr_def arr_refill_def ReleaseDoubleArrayElements_def
        CallVoidMethod_nextArrayOfDouble_def GetDoubleArrayElements_def request_def)
qed

lemma unif_pull:
  assumes "gen_params w p = Some b" "gp_unif b = F_unif" "streams w (gp_rsObj b) = Some s"
    "gp_env b \<noteq> 0"
  shows "unif_wrapper p w = Some (s 0, w\<lparr>streams := (streams w)(gp_rsObj b \<mapsto> (\<lambda>i. s (Suc i))),
       calls := calls w @ [NextDouble (gp_rsObj b)]\<rparr>)"
  using assms by (simp add: unif_wrapper_def unif_def CallDoubleMethod_nextDouble_def)

lemma cons_pull:
  assumes "gen_params w p = Some b" "gp_unif b = F_cons"
  shows "unif_wrapper p w = Some (gp_u b, w\<lparr>gen_params := (gen_params w)(p \<mapsto> b\<lparr>gp_unif := F_unif\<rparr>)\<rparr>)"
  using assms by (simp add: unif_wrapper_def cons_def)

lemma pulls_unif:
  assumes "gen_params w p = Some b" "gp_unif b = F_unif" "streams w (gp_rsObj b) = Some s"
    "gp_env b \<noteq> 0"
  shows "pulls k p w = Some (map s [0..<k], w\<lparr>streams := (streams w)(gp_rsObj b \<mapsto> (\<lambda>i. s (i + k))),
       calls := calls w @ replicate k (NextDouble (gp_rsObj b))\<rparr>)"
  using assms
proof (induction k arbitrary: w s)
  case 0
  then show ?case by (simp add: map_upd_triv)
next
  case (Suc k)
  let ?w = "w\<lparr>streams := (streams w)(gp_rsObj b \<mapsto> (\<lambda>i. s (Suc i))),
       calls := calls w @ [NextDouble (gp_rsObj b)]\<rparr>"
  have s: "unif_wrapper p w = Some (s 0, ?w)"
    using Suc.prems by (intro unif_pull) auto
  have "pulls k p ?w = Some (map (\<lambda>i. s (Suc i)) [0..<k], ?w\<lparr>streams := (streams ?w)(gp_rsObj b \<mapsto> (\<lambda>i. (\<lambda>i. s (Suc i)) (i + k))),
       calls := calls ?w @ replicate k (NextDouble (gp_rsObj b))\<rparr>)"
    using Suc.prems by (intro Suc.IH) auto
  then have r: "pulls k p ?w = Some (map (\<lambda>i. s (Suc i)) [0..<k], w\<lparr>streams := (streams w)(gp_rsObj b \<mapsto> (\<lambda>i. s (i + Suc k))),
       calls := calls w @ replicate (Suc k) (NextDouble (gp_rsObj b))\<rparr>)"
    by (simp add: replicate_app_Cons_same)
  have d: "s 0 # map (\<lambda>i. s (Suc i)) [0..<k] = map s [0..<Suc k]"
    by (simp add: map_Suc_upt[symmetric] upt_conv_Cons del: upt_Suc)
  show ?case by (simp only: pulls.simps s r d option.case prod.case)
qed

text \<open>
  Claim C1. The single-value functions store the uniform they were given in the field
  \<^verbatim>\<open>u\<close> of the block of the main generator and set its function pointer to \<^verbatim>\<open>cons\<close>.
  After these two stores the first uniform asked of the block is the stored value, the
  function pointer is \<^verbatim>\<open>unif\<close> from then on, and each of the \<open>k\<close> requests that follow
  is one call of \<^verbatim>\<open>nextDouble\<close> on the stream of the block and gives the next number of
  that stream. These calls go through the interface pointer that the same functions
  store in the field \<^verbatim>\<open>env\<close> of the block before they enter UNURAN, the pointer they were
  called with, which is not null.
\<close>

theorem cached_value_then_call_through:
  assumes "store p (\<lambda>b. b\<lparr>gp_u := v\<rparr>) w0 = Some w1"
    and "store p (\<lambda>b. b\<lparr>gp_unif := F_cons\<rparr>) w1 = Some w"
    and "gen_params w p = Some b"
    and "streams w (gp_rsObj b) = Some s"
    and "gp_env b \<noteq> 0"
  shows "pulls (Suc k) p w =
           Some (v # map s [0..<k],
                 w\<lparr>gen_params := (gen_params w)(p \<mapsto> b\<lparr>gp_unif := F_unif\<rparr>),
                   streams := (streams w)(gp_rsObj b \<mapsto> (\<lambda>i. s (i + k))),
                   calls := calls w @ replicate k (NextDouble (gp_rsObj b))\<rparr>)"
proof -
  have b: "gp_unif b = F_cons" "gp_u b = v"
    using assms(1,2,3) by (auto simp: store_def split: option.splits)
  let ?w = "w\<lparr>gen_params := (gen_params w)(p \<mapsto> b\<lparr>gp_unif := F_unif\<rparr>)\<rparr>"
  have first: "unif_wrapper p w = Some (v, ?w)"
    using cons_pull[OF assms(3) b(1)] b(2) by simp
  have "pulls k p ?w = Some (map s [0..<k],
          ?w\<lparr>streams := (streams ?w)(gp_rsObj (b\<lparr>gp_unif := F_unif\<rparr>) \<mapsto> (\<lambda>i. s (i + k))),
             calls := calls ?w @ replicate k (NextDouble (gp_rsObj (b\<lparr>gp_unif := F_unif\<rparr>)))\<rparr>)"
    using assms(4,5) by (intro pulls_unif) auto
  then have rest: "pulls k p ?w = Some (map s [0..<k],
                 w\<lparr>gen_params := (gen_params w)(p \<mapsto> b\<lparr>gp_unif := F_unif\<rparr>),
                   streams := (streams w)(gp_rsObj b \<mapsto> (\<lambda>i. s (i + k))),
                   calls := calls w @ replicate k (NextDouble (gp_rsObj b))\<rparr>)"
    by simp
  show ?thesis by (simp only: pulls.simps first rest option.case prod.case)
qed

theorem cached_value_then_call_through_witness:
  "map_option fst (pulls 3 5 (example_ready\<lparr>gen_params := (gen_params example_ready)(5 \<mapsto>
       example_block\<lparr>gp_env := 7, gp_urng := 6, gp_rsObj := 10, gp_u := 1/2,
                      gp_unif := F_cons\<rparr>)\<rparr>))
     = Some [1/2, 0, 1]"
proof -
  let ?blk = "example_block\<lparr>gp_unif := F_unif, gp_urng := 6, gp_rsObj := 10, gp_env := 7\<rparr>"
  let ?wa = "example_ready\<lparr>gen_params := (gen_params example_ready)(5 \<mapsto> ?blk)\<rparr>"
  let ?w1 = "example_ready\<lparr>gen_params := (gen_params example_ready)(5 \<mapsto> ?blk\<lparr>gp_u := 1/2\<rparr>)\<rparr>"
  let ?b = "?blk\<lparr>gp_u := 1/2, gp_unif := F_cons\<rparr>"
  let ?w = "example_ready\<lparr>gen_params := (gen_params example_ready)(5 \<mapsto> ?b)\<rparr>"
  have 1: "store 5 (\<lambda>b. b\<lparr>gp_u := 1/2\<rparr>) ?wa = Some ?w1"
    by (simp add: store_def)
  have 2: "store 5 (\<lambda>b. b\<lparr>gp_unif := F_cons\<rparr>) ?w1 = Some ?w"
    by (simp add: store_def)
  have 3: "gen_params ?w 5 = Some ?b" by simp
  have 4: "streams ?w (gp_rsObj ?b) = Some (\<lambda>i. real i)"
    by (simp add: example_ready_def example_fresh_def)
  have 5: "gp_env ?b \<noteq> 0" by simp
  have "[0..<2] = [0, Suc 0]" by (simp add: upt_conv_Cons)
  with cached_value_then_call_through[OF 1 2 3 4 5, of 2] show ?thesis
    by (simp add: numeral_3_eq_3 numeral_2_eq_2 example_block_def)
qed

text \<open>
  Claim C2. The array functions leave the block of the main generator with the function
  pointer \<^verbatim>\<open>arr\<close> and with \<^verbatim>\<open>n\<close> and \<^verbatim>\<open>nextIndex\<close> both equal to the length \<open>n\<close> of the buffer.
  From such a block, with \<open>n\<close> positive, the first request makes one call
  \<^verbatim>\<open>nextArrayOfDouble (buffer, 0, n)\<close> and leaves the index at 1, having read position 0;
  the first \<open>n\<close> requests give the \<open>n\<close> numbers the stream wrote into the buffer, in
  order and with no further call; the next request makes exactly one more call and gives
  the first number of the second batch. The calls go through the interface pointer that
  the array functions store in the field \<^verbatim>\<open>env\<close> of the block together with the buffer.
\<close>

theorem array_stream_mode:
  assumes blk: "gen_params w p = Some b" and mode: "gp_unif b = F_arr"
    and len: "gp_n b = int n" and cur: "gp_nextIndex b = int n" and pos: "0 < n"
    and buf: "double_arrays w (gp_junifArray b) = Some buf" and lbuf: "length buf = n"
    and str: "streams w (gp_rsObj b) = Some s" and gr: "grants w = []"
    and env: "gp_env b \<noteq> 0"
  shows "\<exists>w1 b1 wn wn'.
           unif_wrapper p w = Some (s 0, w1)
         \<and> calls w1 = calls w @ [NextArrayOfDouble (gp_rsObj b) (gp_junifArray b) 0 (int n)]
         \<and> gen_params w1 p = Some b1 \<and> gp_nextIndex b1 = 1
         \<and> pulls n p w = Some (map s [0..<n], wn)
         \<and> double_arrays wn (gp_junifArray b) = Some (map s [0..<n])
         \<and> calls wn = calls w @ [NextArrayOfDouble (gp_rsObj b) (gp_junifArray b) 0 (int n)]
         \<and> unif_wrapper p wn = Some (s n, wn')
         \<and> double_arrays wn' (gp_junifArray b) = Some (map s [n..<n + n])
         \<and> calls wn' = calls w @ [NextArrayOfDouble (gp_rsObj b) (gp_junifArray b) 0 (int n),
                                    NextArrayOfDouble (gp_rsObj b) (gp_junifArray b) 0 (int n)]"
proof -
  let ?a = "gp_junifArray b"
  let ?call = "NextArrayOfDouble (gp_rsObj b) ?a 0 (int n)"
  let ?b1 = "b\<lparr>gp_unifArray := ?a, gp_nextIndex := 1\<rparr>"
  let ?w1 = "w\<lparr>gen_params := (gen_params w)(p \<mapsto> ?b1),
       streams := (streams w)(gp_rsObj b \<mapsto> (\<lambda>i. s (i + n))),
       double_arrays := (double_arrays w)(?a \<mapsto> map s [0..<n]),
       calls := calls w @ [?call]\<rparr>"
  have first: "unif_wrapper p w = Some (s 0, ?w1)"
    by (rule arr_refill_pull[OF blk mode len cur pos buf lbuf str gr env])
  obtain m where m: "n = Suc m" using pos by (cases n) auto
  let ?bn = "?b1\<lparr>gp_nextIndex := int (1 + m)\<rparr>"
  let ?wn = "?w1\<lparr>gen_params := (gen_params ?w1)(p \<mapsto> ?bn)\<rparr>"
  have rest: "pulls m p ?w1 = Some (take m (drop 1 (map s [0..<n])), ?wn)"
    using len m mode by (intro pulls_arr_in_range) auto
  have d: "s 0 # take m (drop 1 (map s [0..<n])) = map s [0..<n]"
    unfolding m by (simp add: upt_conv_Cons drop_map del: upt_Suc)
  have alln: "pulls n p w = Some (map s [0..<n], ?wn)"
    unfolding m using first rest d unfolding m
    by (simp only: pulls.simps option.case prod.case)
  let ?s' = "\<lambda>i. s (i + n)"
  let ?wn' = "?wn\<lparr>gen_params := (gen_params ?wn)(p \<mapsto> ?bn\<lparr>gp_unifArray := gp_junifArray ?bn, gp_nextIndex := 1\<rparr>),
       streams := (streams ?wn)(gp_rsObj ?bn \<mapsto> (\<lambda>i. ?s' (i + n))),
       double_arrays := (double_arrays ?wn)(gp_junifArray ?bn \<mapsto> map ?s' [0..<n]),
       calls := calls ?wn @ [NextArrayOfDouble (gp_rsObj ?bn) (gp_junifArray ?bn) 0 (int n)]\<rparr>"
  have "unif_wrapper p ?wn = Some (?s' 0, ?wn')"
    using mode len m gr pos env by (intro arr_refill_pull[where buf = "map s [0..<n]"]) auto
  then have nxt: "unif_wrapper p ?wn = Some (s n, ?wn')" by simp
  have sh: "map ?s' [0..<n] = map s [n..<n + n]"
  proof -
    have "map s [n..<n + n] = map s (map (\<lambda>i. i + n) [0..<n])"
      by (simp only: map_add_upt)
    then show ?thesis by (simp add: comp_def)
  qed
  have c1: "calls ?w1 = calls w @ [?call]" by simp
  have g1: "gen_params ?w1 p = Some ?b1" by simp
  have i1: "gp_nextIndex ?b1 = 1" by simp
  have an: "double_arrays ?wn ?a = Some (map s [0..<n])" by simp
  have cn: "calls ?wn = calls w @ [?call]" by simp
  have an': "double_arrays ?wn' ?a = Some (map s [n..<n + n])" using sh by simp
  have cn': "calls ?wn' = calls w @ [?call, ?call]" by simp
  from first c1 g1 i1 alln an cn nxt an' cn' show ?thesis by blast
qed

theorem array_stream_mode_witness:
  "\<exists>wn. pulls 3 5 (example_ready\<lparr>gen_params := (gen_params example_ready)(5 \<mapsto>
            example_block\<lparr>gp_env := 7, gp_rsObj := 10, gp_junifArray := 20, gp_n := 3,
                           gp_nextIndex := 3\<rparr>)\<rparr>)
          = Some ([0, 1, 2], wn)
        \<and> calls wn = [NextArrayOfDouble 10 20 0 3]"
proof -
  let ?b = "example_block\<lparr>gp_env := 7, gp_rsObj := 10, gp_junifArray := 20, gp_n := 3,
                           gp_nextIndex := 3\<rparr>"
  let ?w = "example_ready\<lparr>gen_params := (gen_params example_ready)(5 \<mapsto> ?b)\<rparr>"
  have u: "[0..<3] = [0, 1, 2]" by (simp add: upt_conv_Cons numeral_3_eq_3)
  have "\<exists>w1 b1 wn wn'.
           unif_wrapper 5 ?w = Some (real 0, w1)
         \<and> calls w1 = calls ?w @ [NextArrayOfDouble (gp_rsObj ?b) (gp_junifArray ?b) 0 (int 3)]
         \<and> gen_params w1 5 = Some b1 \<and> gp_nextIndex b1 = 1
         \<and> pulls 3 5 ?w = Some (map real [0..<3], wn)
         \<and> double_arrays wn (gp_junifArray ?b) = Some (map real [0..<3])
         \<and> calls wn = calls ?w @ [NextArrayOfDouble (gp_rsObj ?b) (gp_junifArray ?b) 0 (int 3)]
         \<and> unif_wrapper 5 wn = Some (real 3, wn')
         \<and> double_arrays wn' (gp_junifArray ?b) = Some (map real [3..<3 + 3])
         \<and> calls wn' = calls ?w @ [NextArrayOfDouble (gp_rsObj ?b) (gp_junifArray ?b) 0 (int 3),
                                    NextArrayOfDouble (gp_rsObj ?b) (gp_junifArray ?b) 0 (int 3)]"
    by (rule array_stream_mode[where buf = "[0, 0, 0]"])
       (simp_all add: example_ready_def example_fresh_def example_block_def)
  then obtain wn where "pulls 3 5 ?w = Some (map real [0..<3], wn)"
    and "calls wn = calls ?w @ [NextArrayOfDouble (gp_rsObj ?b) (gp_junifArray ?b) 0 (int 3)]"
    by blast
  then have "pulls 3 5 ?w = Some ([0, 1, 2], wn) \<and> calls wn = [NextArrayOfDouble 10 20 0 3]"
    by (simp add: u example_ready_def example_fresh_def)
  then show ?thesis by blast
qed

subsection \<open>What a sampling call leaves unchanged\<close>

lemma unif_wrapper_frame:
  assumes "unif_wrapper q w = Some (x, w')"
  shows "native_params w' = native_params w \<and> gens w' = gens w \<and> urngs w' = urngs w
       \<and> int_arrays w' = int_arrays w \<and> sample_calls w' = sample_calls w
       \<and> nativeParams w' = nativeParams w"
  using assms
  by (auto simp: unif_wrapper_def unif_def cons_def arr_def arr_refill_def
      CallDoubleMethod_nextDouble_def CallVoidMethod_nextArrayOfDouble_def
      GetDoubleArrayElements_def ReleaseDoubleArrayElements_def request_def
      split: option.splits unif_ptr.splits if_splits prod.splits list.splits)

lemma unif_wrapper_keeps_arr:
  assumes "unif_wrapper q w = Some (x, w')" "gen_params w p = Some b" "gp_unif b = F_arr"
  shows "\<exists>b'. gen_params w' p = Some b' \<and> gp_unif b' = F_arr"
  using assms
  by (auto simp: unif_wrapper_def unif_def cons_def arr_def arr_refill_def
      CallDoubleMethod_nextDouble_def CallVoidMethod_nextArrayOfDouble_def
      GetDoubleArrayElements_def ReleaseDoubleArrayElements_def request_def
      split: option.splits unif_ptr.splits if_splits prod.splits list.splits)

lemma run_sampler_frame:
  "run_sampler t g ga w = Some (r, w') \<Longrightarrow>
     native_params w' = native_params w \<and> gens w' = gens w \<and> urngs w' = urngs w
       \<and> nativeParams w' = nativeParams w"
proof (induction t arbitrary: w)
  case (Return x)
  then show ?case by simp
next
  case (Draw s k)
  from Draw.prems obtain x w1 where
    1: "unur_urng_sample (case s of Primary \<Rightarrow> g | Auxiliary \<Rightarrow> ga) w = Some (x, w1)"
    and 2: "run_sampler (k x) g ga w1 = Some (r, w')"
    by (auto split: option.splits)
  from 1 have "native_params w1 = native_params w \<and> gens w1 = gens w \<and> urngs w1 = urngs w
       \<and> nativeParams w1 = nativeParams w"
    by (auto simp: unur_urng_sample_def split: option.splits dest: unif_wrapper_frame)
  moreover have "native_params w' = native_params w1 \<and> gens w' = gens w1 \<and> urngs w' = urngs w1
       \<and> nativeParams w' = nativeParams w1"
    using Draw.IH[OF _ 2] by blast
  ultimately show ?case by simp
qed

lemma run_sampler_keeps_arr:
  "run_sampler t g ga w = Some (r, w') \<Longrightarrow> gen_params w p = Some b \<Longrightarrow> gp_unif b = F_arr \<Longrightarrow>
     \<exists>b'. gen_params w' p = Some b' \<and> gp_unif b' = F_arr"
proof (induction t arbitrary: w b)
  case (Return x)
  then show ?case by simp
next
  case (Draw s k)
  from Draw.prems(1) obtain x w1 where
    1: "unur_urng_sample (case s of Primary \<Rightarrow> g | Auxiliary \<Rightarrow> ga) w = Some (x, w1)"
    and 2: "run_sampler (k x) g ga w1 = Some (r, w')"
    by (auto split: option.splits)
  from 1 obtain q where "unif_wrapper q w = Some (x, w1)"
    by (auto simp: unur_urng_sample_def split: option.splits)
  from unif_wrapper_keeps_arr[OF this Draw.prems(2,3)]
  obtain b1 where "gen_params w1 p = Some b1" "gp_unif b1 = F_arr" by blast
  with Draw.IH[OF _ 2] show ?case by blast
qed

lemma unur_sample_discr_frame:
  assumes "unur_sample_discr g w = Some (x, w')"
  shows "native_params w' = native_params w \<and> (mode_of p w = Some F_arr \<longrightarrow> mode_of p w' = Some F_arr)"
proof -
  from assms obtain gen :: UNUR_GEN where
    r: "run_sampler (gen_discr gen) (gen_urng gen) (gen_urng_aux gen)
          (w\<lparr>sample_calls := Suc (sample_calls w)\<rparr>) = Some (x, w')"
    using that by (cases "gens w g") (auto simp: unur_sample_discr_def)
  have "native_params w' = native_params w"
    using run_sampler_frame[OF r] by simp
  moreover have "mode_of p w = Some F_arr \<longrightarrow> mode_of p w' = Some F_arr"
    using run_sampler_keeps_arr[OF r, of p]
    by (auto simp: mode_of_def split: option.splits)
  ultimately show ?thesis by simp
qed

lemma unur_sample_cont_frame:
  assumes "unur_sample_cont g w = Some (x, w')"
  shows "native_params w' = native_params w \<and> (mode_of p w = Some F_arr \<longrightarrow> mode_of p w' = Some F_arr)"
proof -
  from assms obtain gen :: UNUR_GEN where
    r: "run_sampler (gen_cont gen) (gen_urng gen) (gen_urng_aux gen)
          (w\<lparr>sample_calls := Suc (sample_calls w)\<rparr>) = Some (x, w')"
    using that by (cases "gens w g") (auto simp: unur_sample_cont_def)
  have "native_params w' = native_params w"
    using run_sampler_frame[OF r] by simp
  moreover have "mode_of p w = Some F_arr \<longrightarrow> mode_of p w' = Some F_arr"
    using run_sampler_keeps_arr[OF r, of p]
    by (auto simp: mode_of_def split: option.splits)
  ultimately show ?thesis by simp
qed

lemma discr_loop_frame:
  "discr_loop np v start n i w = Some w' \<Longrightarrow>
     native_params w' = native_params w \<and> (mode_of p w = Some F_arr \<longrightarrow> mode_of p w' = Some F_arr)"
proof (induction np v start n i w rule: discr_loop.induct)
  case (1 np v start n i w)
  show ?case
  proof (cases "i < n")
    case False
    with "1.prems" show ?thesis by simp
  next
    case True
    with "1.prems" obtain npv x w1 w2 where
      a: "native_params w np = Some npv"
      and b: "unur_sample_discr (np_unurgen npv) w = Some (x, w1)"
      and c: "write_int v (start + i) x w1 = Some w2"
      and d: "discr_loop np v start n (i + 1) w2 = Some w'"
      by (subst (asm) discr_loop.simps) (auto simp: bind_eq_Some_conv)
    have "native_params w1 = native_params w \<and> (mode_of p w = Some F_arr \<longrightarrow> mode_of p w1 = Some F_arr)"
      by (rule unur_sample_discr_frame[OF b])
    moreover have "native_params w2 = native_params w1 \<and> (mode_of p w1 = Some F_arr \<longrightarrow> mode_of p w2 = Some F_arr)"
      using c by (auto simp: write_int_def mode_of_def split: option.splits if_splits)
    moreover have "native_params w' = native_params w2 \<and> (mode_of p w2 = Some F_arr \<longrightarrow> mode_of p w' = Some F_arr)"
      using "1.IH"[OF True a _ _ c d] b by simp
    ultimately show ?thesis by simp
  qed
qed

lemma cont_loop_frame:
  "cont_loop np v start n i w = Some w' \<Longrightarrow>
     native_params w' = native_params w \<and> (mode_of p w = Some F_arr \<longrightarrow> mode_of p w' = Some F_arr)"
proof (induction np v start n i w rule: cont_loop.induct)
  case (1 np v start n i w)
  show ?case
  proof (cases "i < n")
    case False
    with "1.prems" show ?thesis by simp
  next
    case True
    with "1.prems" obtain npv x w1 w2 where
      a: "native_params w np = Some npv"
      and b: "unur_sample_cont (np_unurgen npv) w = Some (x, w1)"
      and c: "write_double v (start + i) x w1 = Some w2"
      and d: "cont_loop np v start n (i + 1) w2 = Some w'"
      by (subst (asm) cont_loop.simps) (auto simp: bind_eq_Some_conv)
    have "native_params w1 = native_params w \<and> (mode_of p w = Some F_arr \<longrightarrow> mode_of p w1 = Some F_arr)"
      by (rule unur_sample_cont_frame[OF b])
    moreover have "native_params w2 = native_params w1 \<and> (mode_of p w1 = Some F_arr \<longrightarrow> mode_of p w2 = Some F_arr)"
      using c by (auto simp: write_double_def mode_of_def split: option.splits if_splits)
    moreover have "native_params w' = native_params w2 \<and> (mode_of p w2 = Some F_arr \<longrightarrow> mode_of p w' = Some F_arr)"
      using "1.IH"[OF True a _ _ c d] b by simp
    ultimately show ?thesis by simp
  qed
qed

lemma store_frame:
  "store p f w = Some w' \<Longrightarrow> native_params w' = native_params w"
  by (auto simp: store_def split: option.splits)

lemma GetDoubleArrayElements_frame:
  "GetDoubleArrayElements a w = Some (x, w') \<Longrightarrow>
     native_params w' = native_params w \<and> gen_params w' = gen_params w"
  by (auto simp: GetDoubleArrayElements_def request_def split: option.splits list.splits)

lemma GetIntArrayElements_frame:
  "GetIntArrayElements a w = Some (x, w') \<Longrightarrow>
     native_params w' = native_params w \<and> gen_params w' = gen_params w"
  by (auto simp: GetIntArrayElements_def request_def split: option.splits list.splits)

lemma store_np_frame:
  "store_np np f w = Some w' \<Longrightarrow>
     gen_params w' = gen_params w \<and>
     (\<exists>b. native_params w np = Some b \<and> native_params w' = (native_params w)(np \<mapsto> f b))"
  by (auto simp: store_np_def split: option.splits)


lemma array_setup_alias:
  assumes "array_setup env np ju 0 n w = Some (loc, w1)" "native_params w np = Some npv"
  shows "native_params w1 = (native_params w)(np \<mapsto>
            npv\<lparr>np_urng_aux := (np_urng_aux npv)\<lparr>uw_params := uw_params (np_urng npv)\<rparr>\<rparr>)
       \<and> fst loc = uw_params (np_urng_aux npv)"
  using assms
  by (auto simp: array_setup_def Let_def bind_eq_Some_conv
      dest!: store_frame GetDoubleArrayElements_frame store_np_frame)


subsection \<open>Sampling arrays\<close>

lemmas eval_defs = getRandDiscArray_def getRandContArray_def array_setup_def array_finish_def
  getRandDisc_def getRandCont_def getRandVec_def
  store_def store_np_def GetDoubleArrayElements_def GetIntArrayElements_def GetArrayLength_def
  ReleaseDoubleArrayElements_def ReleaseIntArrayElements_def request_def
  unur_sample_discr_def unur_sample_cont_def unur_sample_vec_def unur_urng_sample_def
  unif_wrapper_def unif_def cons_def arr_def arr_refill_def
  CallDoubleMethod_nextDouble_def CallVoidMethod_nextArrayOfDouble_def write_int_def
  write_double_def FindClass_def ThrowNew_def mode_of_def mode_after_def calls_after_def
  example_ready_def example_fresh_def example_gen_def example_block_def Let_def
  discr_loop.simps cont_loop.simps upt_conv_Cons

lemma array_finish_restores:
  assumes "array_finish np ju 0 loc w = Some w'" "native_params w np = Some b"
  shows "native_params w' = (native_params w)(np \<mapsto>
           b\<lparr>np_urng_aux := (np_urng_aux b)\<lparr>uw_params := fst loc\<rparr>\<rparr>)"
  using assms
  by (cases loc)
     (auto simp: array_finish_def bind_eq_Some_conv ReleaseDoubleArrayElements_def
        dest!: store_np_frame)

lemma array_setup_np:
  assumes "array_setup env np ju juaux n w = Some (loc, w1)"
  shows "\<exists>npv. native_params w np = Some npv"
  using assms by (auto simp: array_setup_def bind_eq_Some_conv)

lemma array_setup_keeps:
  assumes "array_setup env np ju juaux n w = Some (loc, w1)" "juaux \<noteq> 0"
  shows "native_params w1 = native_params w"
  using assms
  by (auto simp: array_setup_def Let_def bind_eq_Some_conv
      dest!: store_frame GetDoubleArrayElements_frame)

lemma array_finish_keeps:
  assumes "array_finish np ju juaux loc w = Some w'" "juaux \<noteq> 0"
  shows "native_params w' = native_params w"
  using assms
  by (cases loc) (auto simp: array_finish_def ReleaseDoubleArrayElements_def)

lemma array_restore:
  assumes a: "array_setup env np ju juaux n w = Some (l, wa)"
    and m: "native_params wc = native_params wa"
    and d: "array_finish np ju juaux l wc = Some w'"
  shows "native_params w' = native_params w"
proof (cases "juaux = 0")
  case False
  with array_setup_keeps[OF a] array_finish_keeps[OF d] m show ?thesis by simp
next
  case True
  from array_setup_np[OF a] obtain npv where np: "native_params w np = Some npv" by blast
  let ?al = "npv\<lparr>np_urng_aux := (np_urng_aux npv)\<lparr>uw_params := uw_params (np_urng npv)\<rparr>\<rparr>"
  from array_setup_alias[OF a[unfolded True] np]
  have 1: "native_params wa = (native_params w)(np \<mapsto> ?al)"
    and l: "fst l = uw_params (np_urng_aux npv)" by simp_all
  with m have "native_params wc np = Some ?al" by simp
  from array_finish_restores[OF d[unfolded True] this] m 1 l
  have "native_params w' = (native_params w)(np \<mapsto> npv)" by simp
  with np show ?thesis by (simp add: map_upd_triv)
qed

lemma discr_array_frame:
  assumes "getRandDiscArray env obj np ju juaux jv start n w = Some w'"
  shows "native_params w' = native_params w"
proof -
  from assms obtain l wa x wb wc where
    a: "array_setup env np ju juaux n w = Some (l, wa)"
    and b: "GetIntArrayElements jv wa = Some (x, wb)"
    and c: "discr_loop np x start n 0 wb = Some wc"
    and d: "array_finish np ju juaux l wc = Some w'"
    by (auto simp: getRandDiscArray_def bind_eq_Some_conv ReleaseIntArrayElements_def)
  from GetIntArrayElements_frame[OF b] discr_loop_frame[OF c]
  have "native_params wc = native_params wa" by simp
  from array_restore[OF a this d] show ?thesis .
qed

lemma cont_array_frame:
  assumes "getRandContArray env obj np ju juaux jv start n w = Some w'"
  shows "native_params w' = native_params w"
proof -
  from assms obtain l wa x wb wc where
    a: "array_setup env np ju juaux n w = Some (l, wa)"
    and b: "GetDoubleArrayElements jv wa = Some (x, wb)"
    and c: "cont_loop np x start n 0 wb = Some wc"
    and d: "array_finish np ju juaux l wc = Some w'"
    by (auto simp: getRandContArray_def bind_eq_Some_conv ReleaseDoubleArrayElements_def)
  from GetDoubleArrayElements_frame[OF b] cont_loop_frame[OF c]
  have "native_params wc = native_params wa" by simp
  from array_restore[OF a this d] show ?thesis .
qed

text \<open>
  Claim C8. In an array call without an auxiliary buffer, the part before the loop keeps
  the pointer \<^verbatim>\<open>np->urng_aux.params\<close> in the local variable \<^verbatim>\<open>gp\<close> and sets it to
  \<^verbatim>\<open>np->urng.params\<close>; the loops leave the structure NativeParams as it is; the part after
  the loop writes \<^verbatim>\<open>gp\<close> back. So each of the two array functions, when it returns, has
  run its loop from a world in which the two pointers are equal to a world in which they
  still are, and has left the structure as it was before the call, with the pointer of the
  auxiliary generator it held then. The discrete and the continuous function share the
  text before and after the loop.
\<close>

theorem aux_params_aliased_then_restored:
  assumes np: "native_params w np = Some npv"
  shows "(array_setup env np ju 0 n w = Some (loc, w1) \<longrightarrow>
            native_params w1 np = Some (npv\<lparr>np_urng_aux :=
               (np_urng_aux npv)\<lparr>uw_params := uw_params (np_urng npv)\<rparr>\<rparr>)
            \<and> fst loc = uw_params (np_urng_aux npv))
       \<and> (discr_loop np v start n i w2 = Some w3 \<longrightarrow> native_params w3 = native_params w2)
       \<and> (cont_loop np v start n i w2 = Some w3 \<longrightarrow> native_params w3 = native_params w2)
       \<and> (getRandDiscArray env obj np ju 0 jv start n w = Some w' \<longrightarrow>
            native_params w' = native_params w
            \<and> (\<exists>l wa x wb wc.
                  array_setup env np ju 0 n w = Some (l, wa)
                \<and> GetIntArrayElements jv wa = Some (x, wb)
                \<and> discr_loop np x start n 0 wb = Some wc
                \<and> array_finish np ju 0 l wc = Some w'
                \<and> native_params wb np = Some (npv\<lparr>np_urng_aux :=
                      (np_urng_aux npv)\<lparr>uw_params := uw_params (np_urng npv)\<rparr>\<rparr>)
                \<and> native_params wc np = Some (npv\<lparr>np_urng_aux :=
                      (np_urng_aux npv)\<lparr>uw_params := uw_params (np_urng npv)\<rparr>\<rparr>)))
       \<and> (getRandContArray env obj np ju 0 jv start n w = Some w' \<longrightarrow>
            native_params w' = native_params w
            \<and> (\<exists>l wa x wb wc.
                  array_setup env np ju 0 n w = Some (l, wa)
                \<and> GetDoubleArrayElements jv wa = Some (x, wb)
                \<and> cont_loop np x start n 0 wb = Some wc
                \<and> array_finish np ju 0 l wc = Some w'
                \<and> native_params wb np = Some (npv\<lparr>np_urng_aux :=
                      (np_urng_aux npv)\<lparr>uw_params := uw_params (np_urng npv)\<rparr>\<rparr>)
                \<and> native_params wc np = Some (npv\<lparr>np_urng_aux :=
                      (np_urng_aux npv)\<lparr>uw_params := uw_params (np_urng npv)\<rparr>\<rparr>)))"
proof (intro conjI impI)
  assume "array_setup env np ju 0 n w = Some (loc, w1)"
  from array_setup_alias[OF this np]
  show "native_params w1 np = Some (npv\<lparr>np_urng_aux :=
               (np_urng_aux npv)\<lparr>uw_params := uw_params (np_urng npv)\<rparr>\<rparr>)"
    and "fst loc = uw_params (np_urng_aux npv)"
    by simp_all
next
  assume "discr_loop np v start n i w2 = Some w3"
  from discr_loop_frame[OF this] show "native_params w3 = native_params w2" by simp
next
  assume "cont_loop np v start n i w2 = Some w3"
  from cont_loop_frame[OF this] show "native_params w3 = native_params w2" by simp
next
  assume "getRandDiscArray env obj np ju 0 jv start n w = Some w'"
  then show "native_params w' = native_params w" by (rule discr_array_frame)
next
  assume "getRandDiscArray env obj np ju 0 jv start n w = Some w'"
  then obtain l wa x wb wc where
    a: "array_setup env np ju 0 n w = Some (l, wa)"
    and b: "GetIntArrayElements jv wa = Some (x, wb)"
    and c: "discr_loop np x start n 0 wb = Some wc"
    and d: "array_finish np ju 0 l wc = Some w'"
    by (auto simp: getRandDiscArray_def bind_eq_Some_conv ReleaseIntArrayElements_def)
  let ?al = "npv\<lparr>np_urng_aux := (np_urng_aux npv)\<lparr>uw_params := uw_params (np_urng npv)\<rparr>\<rparr>"
  from array_setup_alias[OF a np] have "native_params wa np = Some ?al" by simp
  with GetIntArrayElements_frame[OF b] have e: "native_params wb np = Some ?al" by simp
  with discr_loop_frame[OF c] have f: "native_params wc np = Some ?al" by simp
  from a b c d e f
  show "\<exists>l wa x wb wc.
                  array_setup env np ju 0 n w = Some (l, wa)
                \<and> GetIntArrayElements jv wa = Some (x, wb)
                \<and> discr_loop np x start n 0 wb = Some wc
                \<and> array_finish np ju 0 l wc = Some w'
                \<and> native_params wb np = Some ?al
                \<and> native_params wc np = Some ?al"
    by blast
next
  assume "getRandContArray env obj np ju 0 jv start n w = Some w'"
  then show "native_params w' = native_params w" by (rule cont_array_frame)
next
  assume "getRandContArray env obj np ju 0 jv start n w = Some w'"
  then obtain l wa x wb wc where
    a: "array_setup env np ju 0 n w = Some (l, wa)"
    and b: "GetDoubleArrayElements jv wa = Some (x, wb)"
    and c: "cont_loop np x start n 0 wb = Some wc"
    and d: "array_finish np ju 0 l wc = Some w'"
    by (auto simp: getRandContArray_def bind_eq_Some_conv ReleaseDoubleArrayElements_def)
  let ?al = "npv\<lparr>np_urng_aux := (np_urng_aux npv)\<lparr>uw_params := uw_params (np_urng npv)\<rparr>\<rparr>"
  from array_setup_alias[OF a np] have "native_params wa np = Some ?al" by simp
  with GetDoubleArrayElements_frame[OF b] have e: "native_params wb np = Some ?al" by simp
  with cont_loop_frame[OF c] have f: "native_params wc np = Some ?al" by simp
  from a b c d e f
  show "\<exists>l wa x wb wc.
                  array_setup env np ju 0 n w = Some (l, wa)
                \<and> GetDoubleArrayElements jv wa = Some (x, wb)
                \<and> cont_loop np x start n 0 wb = Some wc
                \<and> array_finish np ju 0 l wc = Some w'
                \<and> native_params wb np = Some ?al
                \<and> native_params wc np = Some ?al"
    by blast
qed


lemma example_discr_array_alias:
  "\<exists>w'. getRandDiscArray 7 1 3 20 0 30 0 2 example_used = Some w'"
  by (simp add: eval_defs example_used_def)

lemma example_cont_array_alias:
  "\<exists>w'. getRandContArray 7 1 3 20 0 22 0 2 example_ready = Some w'"
  by (simp add: eval_defs)

lemma example_np:
  "native_params example_ready 3 =
      Some \<lparr>np_unurgen = 4, np_objMainStream = 10, np_objAuxStream = 11,
            np_urng = \<lparr>uw_urng = 6, uw_params = 5\<rparr>,
            np_urng_aux = \<lparr>uw_urng = 8, uw_params = 7\<rparr>, np_dim = 3\<rparr>"
  "native_params example_used 3 =
      Some \<lparr>np_unurgen = 4, np_objMainStream = 10, np_objAuxStream = 11,
            np_urng = \<lparr>uw_urng = 6, uw_params = 5\<rparr>,
            np_urng_aux = \<lparr>uw_urng = 8, uw_params = 7\<rparr>, np_dim = 3\<rparr>"
  by (simp_all add: example_ready_def example_used_def)

theorem aux_params_aliased_then_restored_witness:
  "\<exists>w' w''. getRandDiscArray 7 1 3 20 0 30 0 2 example_used = Some w'
     \<and> native_params w' = native_params example_used
     \<and> getRandContArray 7 1 3 20 0 22 0 2 example_ready = Some w''
     \<and> native_params w'' = native_params example_ready"
proof -
  obtain w' where 1: "getRandDiscArray 7 1 3 20 0 30 0 2 example_used = Some w'"
    using example_discr_array_alias by blast
  obtain w'' where 2: "getRandContArray 7 1 3 20 0 22 0 2 example_ready = Some w''"
    using example_cont_array_alias by blast
  from aux_params_aliased_then_restored[OF example_np(2), where env=7 and obj=1 and ju=20 and jv=30 and start=0 and n=2 and w'=w'] 1
  have a: "native_params w' = native_params example_used" by blast
  from aux_params_aliased_then_restored[OF example_np(1), where env=7 and obj=1 and ju=20 and jv=22 and start=0 and n=2 and w'=w''] 2
  have b: "native_params w'' = native_params example_ready" by blast
  from 1 2 a b show ?thesis by blast
qed

text \<open>
  Claim C3, evaluated. The discrete array function is called on the initialised object
  with the auxiliary buffer 21. The generator draws from the auxiliary source once per
  variate: each of the two draws is a call of \<^verbatim>\<open>nextDouble\<close> on the auxiliary stream 11,
  the buffer 21 is never filled, and the function pointer of the auxiliary block is
  still \<^verbatim>\<open>unif\<close> after the call. The branch for a supplied buffer assigns \<^verbatim>\<open>arr\<close> to
  \<^verbatim>\<open>np->urng.params->unif\<close>, the main block, a second time, and not to the auxiliary
  block whose fields it has just set.
\<close>

theorem aux_buffer_supplied_aux_stays_call_through:
  "mode_after 7 (getRandDiscArray 7 1 3 20 21 30 0 2 example_ready) = Some F_unif
   \<and> calls_after (getRandDiscArray 7 1 3 20 21 30 0 2 example_ready)
       = Some [NextArrayOfDouble 10 20 0 2, NextDouble 11, NextDouble 11]"
  by (simp add: eval_defs)






















subsection \<open>Sampling a vector into an array that is too short\<close>

text \<open>
  Claim C9. When the array is shorter than the dimension, \<^verbatim>\<open>getRandVec\<close> returns with an
  exception pending and has entered no sampling routine of UNURAN, made no call on a
  stream, changed no array and asked for the elements of no array. The exception is
  the UnuranException with the message "array too short" when the virtual machine finds
  that class, and the failure of \<^verbatim>\<open>FindClass\<close> otherwise.
\<close>

theorem getRandVec_array_too_short:
  assumes np: "native_params w np = Some npv"
    and p: "gen_params w (uw_params (np_urng npv)) = Some b"
    and pa: "gen_params w (uw_params (np_urng_aux npv)) = Some ba"
    and arr: "double_arrays w jvec = Some xs"
    and short: "int (length xs) < np_dim npv"
  shows "\<exists>w'. getRandVec env obj u np jvec w = Some w'
      \<and> sample_calls w' = sample_calls w \<and> calls w' = calls w
      \<and> double_arrays w' = double_arrays w \<and> grants w' = grants w
      \<and> pending w' =
          Some (if class_found w ''umontreal/ssj/randvar/UnuranException''
                then Throwable ''umontreal/ssj/randvar/UnuranException'' ''array too short''
                else Throwable ''java/lang/NoClassDefFoundError''
                       ''umontreal/ssj/randvar/UnuranException'')"
  using assms
  by (auto simp: getRandVec_def store_def GetArrayLength_def FindClass_def ThrowNew_def Let_def)

theorem getRandVec_array_too_short_witness:
  "\<exists>w'. getRandVec 7 1 (1/2) 3 22 example_ready = Some w'
      \<and> sample_calls w' = 0 \<and> double_arrays w' 22 = Some [0, 0]
      \<and> pending w' = Some (Throwable ''umontreal/ssj/randvar/UnuranException'' ''array too short'')"
proof -
  let ?npv = "\<lparr>np_unurgen = 4, np_objMainStream = 10, np_objAuxStream = 11,
            np_urng = \<lparr>uw_urng = 6, uw_params = 5\<rparr>,
            np_urng_aux = \<lparr>uw_urng = 8, uw_params = 7\<rparr>, np_dim = 3\<rparr>"
  have np: "native_params example_ready 3 = Some ?npv"
    by (simp add: example_ready_def)
  have p: "gen_params example_ready (uw_params (np_urng ?npv))
         = Some (example_block\<lparr>gp_unif := F_unif, gp_urng := 6, gp_rsObj := 10\<rparr>)"
    by (simp add: example_ready_def)
  have pa: "gen_params example_ready (uw_params (np_urng_aux ?npv))
         = Some (example_block\<lparr>gp_unif := F_unif, gp_rsObj := 11\<rparr>)"
    by (simp add: example_ready_def)
  have arr: "double_arrays example_ready 22 = Some [0, 0]"
    by (simp add: example_ready_def example_fresh_def)
  have short: "int (length [0::real, 0]) < np_dim ?npv" by simp
  from getRandVec_array_too_short[OF np p pa arr short, of 7 1 "1/2"]
  show ?thesis
    by (auto simp: example_ready_def example_fresh_def)
qed

subsection \<open>Closing\<close>

lemma close_undefined: "\<not> fidNativeParams w \<Longrightarrow> RandUnuran_close env obj w = None"
  by (simp add: RandUnuran_close_def GetLongField_nativeParams_def Let_def)

lemma close_null:
  "fidNativeParams w \<Longrightarrow> nativeParams w obj = 0 \<Longrightarrow> RandUnuran_close env obj w = Some w"
  by (cases "pending w") (simp_all add: RandUnuran_close_def GetLongField_nativeParams_def Let_def)

lemma store_gen_jvm:
  "store_gen r f w = Some w' \<Longrightarrow>
     pending w' = pending w \<and> fidNativeParams w' = fidNativeParams w \<and> nativeParams w' = nativeParams w"
  by (cases r) (auto simp: store_gen_def store_np_def split: option.splits)

lemma urng_jni_destroy_jvm:
  assumes "urng_jni_destroy r w = Some w'"
  shows "pending w' = pending w \<and> fidNativeParams w' = fidNativeParams w \<and> nativeParams w' = nativeParams w"
proof (cases "r = NullGen")
  case True
  with assms show ?thesis by (simp add: urng_jni_destroy_def)
next
  case False
  with assms obtain g :: UrngWithParams and w1 and g1 :: UrngWithParams where
    1: "(if uw_params g \<noteq> 0 then do {
                w \<leftarrow> free_GenParams (uw_params g) w;
                store_gen r (\<lambda>g. g\<lparr>uw_params := 0\<rparr>) w
              } else Some w) = Some w1"
    and 2: "(if uw_urng g1 \<noteq> 0 then do {
          w \<leftarrow> unur_urng_free (uw_urng g1) w1;
          store_gen r (\<lambda>g. g\<lparr>uw_urng := 0\<rparr>) w
        } else Some w1) = Some w'"
    by (auto simp: urng_jni_destroy_def bind_eq_Some_conv)
  from 1 have "pending w1 = pending w \<and> fidNativeParams w1 = fidNativeParams w
      \<and> nativeParams w1 = nativeParams w"
    by (auto simp: bind_eq_Some_conv free_GenParams_def split: if_splits option.splits
        dest!: store_gen_jvm)
  moreover from 2 have "pending w' = pending w1 \<and> fidNativeParams w' = fidNativeParams w1
      \<and> nativeParams w' = nativeParams w1"
    by (auto simp: bind_eq_Some_conv unur_urng_free_def split: if_splits option.splits
        dest!: store_gen_jvm)
  ultimately show ?thesis by simp
qed

lemma close_free_jvm:
  assumes "close_free np w = Some w'"
  shows "pending w' = pending w \<and> fidNativeParams w' = fidNativeParams w \<and> nativeParams w' = nativeParams w"
proof -
  from assms obtain w1 w2 and npv :: NativeParams and w3 w4 w5 where
    1: "urng_jni_destroy (AuxOf np) w = Some w1"
    and 2: "urng_jni_destroy (MainOf np) w1 = Some w2"
    and 3: "unur_free (np_unurgen npv) w2 = Some w3"
    and 4: "(if np_objAuxStream npv \<noteq> 0 then DeleteGlobalRef (np_objAuxStream npv) w3
           else Some w3) = Some w4"
    and 5: "(if np_objMainStream npv \<noteq> 0 then DeleteGlobalRef (np_objMainStream npv) w4
           else Some w4) = Some w5"
    and 6: "free_NativeParams np w5 = Some w'"
    by (auto simp: close_free_def bind_eq_Some_conv)
  have "pending w1 = pending w \<and> fidNativeParams w1 = fidNativeParams w \<and> nativeParams w1 = nativeParams w"
    "pending w2 = pending w1 \<and> fidNativeParams w2 = fidNativeParams w1 \<and> nativeParams w2 = nativeParams w1"
    using 1 2 by (auto dest: urng_jni_destroy_jvm)
  moreover have "pending w3 = pending w2 \<and> fidNativeParams w3 = fidNativeParams w2 \<and> nativeParams w3 = nativeParams w2"
    using 3 by (auto simp: unur_free_def split: if_splits option.splits)
  moreover have "pending w4 = pending w3 \<and> fidNativeParams w4 = fidNativeParams w3 \<and> nativeParams w4 = nativeParams w3"
    "pending w5 = pending w4 \<and> fidNativeParams w5 = fidNativeParams w4 \<and> nativeParams w5 = nativeParams w4"
    using 4 5 by (auto simp: DeleteGlobalRef_def split: if_splits)
  moreover have "pending w' = pending w5 \<and> fidNativeParams w' = fidNativeParams w5 \<and> nativeParams w' = nativeParams w5"
    using 6 by (auto simp: free_NativeParams_def split: option.splits)
  ultimately show ?thesis by simp
qed

lemma close_cleanup_pending:
  assumes "close_cleanup np obj w = Some w'"
  shows "pending w' = pending w \<and> pending w = None \<and> nativeParams w' obj = 0
       \<and> fidNativeParams w \<and> fidNativeParams w'"
proof -
  from assms obtain w1 where 1: "close_free np w = Some w1"
    and 2: "SetLongField_nativeParams obj 0 w1 = Some w'"
    by (auto simp: close_cleanup_def bind_eq_Some_conv)
  from 2 have "pending w' = pending w1 \<and> pending w1 = None \<and> nativeParams w' obj = 0
       \<and> fidNativeParams w1 \<and> fidNativeParams w'"
    by (auto simp: SetLongField_nativeParams_def split: if_splits)
  with close_free_jvm[OF 1] show ?thesis by simp
qed

lemma close_then_null:
  "RandUnuran_close env obj w = Some w' \<Longrightarrow> nativeParams w' obj = 0 \<and> fidNativeParams w'"
  by (cases "pending w")
     (auto simp: RandUnuran_close_def GetLongField_nativeParams_def Let_def bind_eq_Some_conv
        split: if_splits dest!: close_cleanup_pending)

lemma close_pending:
  "RandUnuran_close env obj w =
     map_option (\<lambda>w'. w'\<lparr>pending := pending w\<rparr>) (RandUnuran_close env obj (w\<lparr>pending := None\<rparr>))"
proof (cases "fidNativeParams w")
  case False
  then show ?thesis by (simp add: close_undefined)
next
  case fid: True
  show ?thesis
  proof (cases "nativeParams w obj = 0")
    case True
    with fid show ?thesis
      by (cases "pending w")
         (simp_all add: RandUnuran_close_def GetLongField_nativeParams_def Let_def)
  next
    case False
    show ?thesis
    proof (cases "close_cleanup (nativeParams w obj) obj (w\<lparr>pending := None\<rparr>)")
      case None
      with False fid show ?thesis
        by (simp add: RandUnuran_close_def GetLongField_nativeParams_def Let_def)
    next
      case (Some w1)
      from close_cleanup_pending[OF Some] have "pending w1 = None" by simp
      then have "w1\<lparr>pending := None\<rparr> = w1" by simp
      with False Some fid show ?thesis
        by (cases "pending w")
           (simp_all add: RandUnuran_close_def GetLongField_nativeParams_def Let_def)
    qed
  qed
qed

lemma request_alt: "request w = (granted w, w\<lparr>grants := tl (grants w)\<rparr>)"
  by (cases "grants w") (simp_all add: request_def granted_def)

lemma store_gen_pending_commute:
  "store_gen r f (w\<lparr>pending := x\<rparr>) = map_option (pending_update (\<lambda>_. x)) (store_gen r f w)"
  by (cases r) (auto simp: store_gen_def store_np_def split: option.splits)

lemma load_gen_pending [simp]: "load_gen r (w\<lparr>pending := x\<rparr>) = load_gen r w"
  by (cases r) (auto simp: load_gen_def)

lemma free_GenParams_pending_commute:
  "free_GenParams p (w\<lparr>pending := x\<rparr>) = map_option (pending_update (\<lambda>_. x)) (free_GenParams p w)"
  by (auto simp: free_GenParams_def split: option.splits)

lemma unur_urng_free_pending_commute:
  "unur_urng_free p (w\<lparr>pending := x\<rparr>) = map_option (pending_update (\<lambda>_. x)) (unur_urng_free p w)"
  by (auto simp: unur_urng_free_def split: option.splits)

lemma unur_free_pending_commute:
  "unur_free p (w\<lparr>pending := x\<rparr>) = map_option (pending_update (\<lambda>_. x)) (unur_free p w)"
  by (auto simp: unur_free_def split: option.splits)

lemma DeleteGlobalRef_pending_commute:
  "DeleteGlobalRef p (w\<lparr>pending := x\<rparr>) = map_option (pending_update (\<lambda>_. x)) (DeleteGlobalRef p w)"
  by (auto simp: DeleteGlobalRef_def)

lemma free_NativeParams_pending_commute:
  "free_NativeParams p (w\<lparr>pending := x\<rparr>) = map_option (pending_update (\<lambda>_. x)) (free_NativeParams p w)"
  by (auto simp: free_NativeParams_def split: option.splits)

lemma bind_map_option:
  "Option.bind (map_option f m) g = Option.bind m (\<lambda>x. g (f x))"
  by (cases m) simp_all

lemmas pending_commute = store_gen_pending_commute free_GenParams_pending_commute
  unur_urng_free_pending_commute unur_free_pending_commute DeleteGlobalRef_pending_commute
  free_NativeParams_pending_commute

lemma commute_bind:
  assumes "F (U w) = map_option U (F w)" and "\<And>w'. G (U w') = map_option U (G w')"
  shows "Option.bind (F (U w)) G = map_option U (Option.bind (F w) G)"
  by (cases "F w") (simp_all add: assms)

lemma commute_if:
  assumes "c \<Longrightarrow> F (U w) = map_option U (F w)"
  shows "(if c then F (U w) else Some (U w)) = map_option U (if c then F w else Some w)"
  using assms by simp

lemma urng_jni_destroy_pending_commute:
  "urng_jni_destroy r (w\<lparr>pending := x\<rparr>) = map_option (pending_update (\<lambda>_. x)) (urng_jni_destroy r w)"
proof (cases "r = NullGen")
  case True
  then show ?thesis by (simp add: urng_jni_destroy_def)
next
  case False
  show ?thesis
  proof (cases "load_gen r w")
    case None
    with False show ?thesis by (simp add: urng_jni_destroy_def)
  next
    case (Some g)
    define B where "B = (\<lambda>w. load_gen r w \<bind> (\<lambda>g.
        if uw_urng g \<noteq> 0 then do {
          w \<leftarrow> unur_urng_free (uw_urng g) w;
          store_gen r (\<lambda>g. g\<lparr>uw_urng := 0\<rparr>) w
        } else Some w))"
    define A where "A = (\<lambda>w. if uw_params g \<noteq> 0 then do {
                w \<leftarrow> free_GenParams (uw_params g) w;
                store_gen r (\<lambda>g. g\<lparr>uw_params := 0\<rparr>) w
              } else Some w)"
    have B: "B (w'\<lparr>pending := x\<rparr>) = map_option (pending_update (\<lambda>_. x)) (B w')" for w'
    proof (cases "load_gen r w'")
      case None
      then show ?thesis by (simp add: B_def)
    next
      case (Some g')
      have "unur_urng_free (uw_urng g') (w'\<lparr>pending := x\<rparr>) \<bind> store_gen r (\<lambda>g. g\<lparr>uw_urng := 0\<rparr>)
          = map_option (pending_update (\<lambda>_. x))
              (unur_urng_free (uw_urng g') w' \<bind> store_gen r (\<lambda>g. g\<lparr>uw_urng := 0\<rparr>))"
        by (rule commute_bind) (simp_all add: pending_commute)
      with Some show ?thesis by (simp add: B_def)
    qed
    have "free_GenParams (uw_params g) (w\<lparr>pending := x\<rparr>) \<bind> store_gen r (\<lambda>g. g\<lparr>uw_params := 0\<rparr>)
          = map_option (pending_update (\<lambda>_. x))
              (free_GenParams (uw_params g) w \<bind> store_gen r (\<lambda>g. g\<lparr>uw_params := 0\<rparr>))"
      by (rule commute_bind) (simp_all add: pending_commute)
    then have A: "A (w\<lparr>pending := x\<rparr>) = map_option (pending_update (\<lambda>_. x)) (A w)"
      by (simp add: A_def)
    have "A (w\<lparr>pending := x\<rparr>) \<bind> B = map_option (pending_update (\<lambda>_. x)) (A w \<bind> B)"
      using A B by (rule commute_bind)
    moreover have "urng_jni_destroy r w' = A w' \<bind> B" if "load_gen r w' = Some g" for w'
      using that False by (simp add: urng_jni_destroy_def A_def B_def)
    ultimately show ?thesis using Some by simp
  qed
qed

lemma close_free_pending_commute:
  "close_free np (w\<lparr>pending := x\<rparr>) = map_option (pending_update (\<lambda>_. x)) (close_free np w)"
  unfolding close_free_def
proof (intro commute_bind urng_jni_destroy_pending_commute)
  fix w1 w2 :: world
  show "native_params (w2\<lparr>pending := x\<rparr>) np \<bind>
       (\<lambda>npv. unur_free (np_unurgen npv) (w2\<lparr>pending := x\<rparr>) \<bind>
              (\<lambda>w. (if np_objAuxStream npv \<noteq> 0 then DeleteGlobalRef (np_objAuxStream npv) w
                    else Some w) \<bind>
                   (\<lambda>w. (if np_objMainStream npv \<noteq> 0
                         then DeleteGlobalRef (np_objMainStream npv) w else Some w) \<bind>
                        free_NativeParams np))) =
       map_option (pending_update (\<lambda>_. x))
        (native_params w2 np \<bind>
         (\<lambda>npv. unur_free (np_unurgen npv) w2 \<bind>
                (\<lambda>w. (if np_objAuxStream npv \<noteq> 0
                      then DeleteGlobalRef (np_objAuxStream npv) w else Some w) \<bind>
                     (\<lambda>w. (if np_objMainStream npv \<noteq> 0
                           then DeleteGlobalRef (np_objMainStream npv) w else Some w) \<bind>
                          free_NativeParams np))))"
  proof (cases "native_params w2 np")
    case None
    then show ?thesis by simp
  next
    case (Some npv)
    have "unur_free (np_unurgen npv) (w2\<lparr>pending := x\<rparr>) \<bind>
              (\<lambda>w. (if np_objAuxStream npv \<noteq> 0 then DeleteGlobalRef (np_objAuxStream npv) w
                    else Some w) \<bind>
                   (\<lambda>w. (if np_objMainStream npv \<noteq> 0
                         then DeleteGlobalRef (np_objMainStream npv) w else Some w) \<bind>
                        free_NativeParams np))
        = map_option (pending_update (\<lambda>_. x)) (unur_free (np_unurgen npv) w2 \<bind>
              (\<lambda>w. (if np_objAuxStream npv \<noteq> 0 then DeleteGlobalRef (np_objAuxStream npv) w
                    else Some w) \<bind>
                   (\<lambda>w. (if np_objMainStream npv \<noteq> 0
                         then DeleteGlobalRef (np_objMainStream npv) w else Some w) \<bind>
                        free_NativeParams np)))"
      by (intro commute_bind) (simp_all add: pending_commute)
    with Some show ?thesis by simp
  qed
qed

text \<open>
  What \<^verbatim>\<open>close\<close> does in all: nothing when the field \<^verbatim>\<open>nativeParams\<close> is null, and
  otherwise the release of the memory and the reset of the field. The exception that was
  pending is pending again afterwards, so the pending exception plays no part in the
  result. The result is undefined when the identifier of the field was never cached.
\<close>

lemma close_alt:
  "RandUnuran_close env obj w =
     (if \<not> fidNativeParams w then None
      else if nativeParams w obj = 0 then Some w
      else map_option (\<lambda>w'. w'\<lparr>nativeParams := (nativeParams w')(obj := 0)\<rparr>)
             (close_free (nativeParams w obj) w))"
proof (cases "fidNativeParams w")
  case False
  then show ?thesis by (simp add: close_undefined)
next
  case fid: True
  show ?thesis
  proof (cases "nativeParams w obj = 0")
    case True
    with fid show ?thesis by (simp add: close_null)
  next
    case False
    show ?thesis
    proof (cases "close_free (nativeParams w obj) w")
      case None
      with False fid show ?thesis
        by (simp add: RandUnuran_close_def GetLongField_nativeParams_def Let_def
            close_cleanup_def close_free_pending_commute)
    next
      case (Some w1)
      from close_free_jvm[OF Some] fid have f: "pending w1 = pending w" "fidNativeParams w1" by simp_all
      then have "w1\<lparr>nativeParams := (nativeParams w1)(obj := 0), pending := pending w\<rparr>
          = w1\<lparr>nativeParams := (nativeParams w1)(obj := 0)\<rparr>" by simp
      with False Some fid f show ?thesis
        by (cases "pending w")
           (auto simp add: RandUnuran_close_def GetLongField_nativeParams_def Let_def
              close_cleanup_def close_free_pending_commute SetLongField_nativeParams_def)
    qed
  qed
qed

lemma close_ready:
  assumes "handle_ready obj w" "fidNativeParams w"
  shows "\<exists>w'. RandUnuran_close env obj w = Some w'"
  using assms
  by (auto simp: handle_ready_def close_alt close_free_def urng_jni_destroy_def load_gen_def
      store_gen_def store_np_def free_GenParams_def unur_urng_free_def unur_free_def
      DeleteGlobalRef_def free_NativeParams_def mode_of_def
      split: option.splits)

subsection \<open>The structure of a uniform generator\<close>

lemma load_store_gen:
  "store_gen r f w = Some w' \<Longrightarrow> load_gen r w' = map_option f (load_gen r w)"
  by (cases r) (auto simp: store_gen_def load_gen_def store_np_def split: option.splits)

lemma load_gen_free:
  "free_GenParams p w = Some w' \<Longrightarrow> load_gen r w' = load_gen r w"
  "unur_urng_free p w = Some w' \<Longrightarrow> load_gen r w' = load_gen r w"
  by (cases r; auto simp: free_GenParams_def unur_urng_free_def load_gen_def split: option.splits)+

lemma destroy_post:
  assumes "urng_jni_destroy r w = Some w'" "r \<noteq> NullGen"
  shows "load_gen r w' = Some \<lparr>uw_urng = 0, uw_params = 0\<rparr>"
proof -
  from assms obtain g :: UrngWithParams and w1 and g1 :: UrngWithParams where
    lg: "load_gen r w = Some g"
    and s1: "(if uw_params g \<noteq> 0 then do {
                w \<leftarrow> free_GenParams (uw_params g) w;
                store_gen r (\<lambda>g. g\<lparr>uw_params := 0\<rparr>) w
              } else Some w) = Some w1"
    and lg1: "load_gen r w1 = Some g1"
    and s2: "(if uw_urng g1 \<noteq> 0 then do {
          w \<leftarrow> unur_urng_free (uw_urng g1) w1;
          store_gen r (\<lambda>g. g\<lparr>uw_urng := 0\<rparr>) w
        } else Some w1) = Some w'"
    by (auto simp: urng_jni_destroy_def bind_eq_Some_conv)
  have p0: "uw_params g1 = 0"
  proof (cases "uw_params g = 0")
    case True
    with s1 lg lg1 show ?thesis by simp
  next
    case False
    with s1 obtain wa where "free_GenParams (uw_params g) w = Some wa"
      and "store_gen r (\<lambda>g. g\<lparr>uw_params := 0\<rparr>) wa = Some w1"
      by (auto simp: bind_eq_Some_conv)
    with lg lg1 show ?thesis
      by (auto dest!: load_store_gen[where r = r] load_gen_free(1)[where r = r])
  qed
  show ?thesis
  proof (cases "uw_urng g1 = 0")
    case True
    with s2 lg1 p0 show ?thesis by (cases g1) simp
  next
    case False
    with s2 obtain wa where "unur_urng_free (uw_urng g1) w1 = Some wa"
      and "store_gen r (\<lambda>g. g\<lparr>uw_urng := 0\<rparr>) wa = Some w'"
      by (auto simp: bind_eq_Some_conv)
    with lg1 p0 show ?thesis
      by (cases g1) (auto dest!: load_store_gen[where r = r] load_gen_free(2)[where r = r])
  qed
qed

lemma destroy_null:
  assumes "load_gen r w = Some \<lparr>uw_urng = 0, uw_params = 0\<rparr>"
  shows "urng_jni_destroy r w = Some w"
  using assms by (simp add: urng_jni_destroy_def)

lemma store_gen_heap:
  "store_gen r f w = Some w' \<Longrightarrow> gen_params w' = gen_params w \<and> urngs w' = urngs w"
  by (cases r) (auto simp: store_gen_def store_np_def split: option.splits)

lemma store_load_gen:
  "store p f w = Some w' \<Longrightarrow>
     load_gen r w' = load_gen r w \<and> gen_params w' p \<noteq> None \<and> urngs w' = urngs w"
  by (cases r) (auto simp: store_def load_gen_def split: option.splits)

lemma unur_urng_new_facts:
  "unur_urng_new p w = (u, w') \<Longrightarrow>
     load_gen r w' = load_gen r w \<and> gen_params w' = gen_params w \<and>
     (u \<noteq> 0 \<longrightarrow> urngs w' u = Some p)"
  by (cases r) (auto simp: unur_urng_new_def request_alt load_gen_def split: if_splits)

lemma create_post:
  assumes c: "urng_jni_create r w = Some w'"
  shows "\<exists>g. load_gen r w' = Some g \<and>
           (uw_urng g \<noteq> 0 \<and> uw_params g \<noteq> 0 \<and> urngs w' (uw_urng g) = Some (uw_params g)
              \<and> gen_params w' (uw_params g) \<noteq> None
            \<or> uw_urng g = 0 \<and> uw_params g = 0)"
proof -
  obtain p w1 where m: "malloc_GenParams w = (p, w1)" by (cases "malloc_GenParams w")
  from c m obtain w2 where s2: "store_gen r (\<lambda>g. g\<lparr>uw_params := p\<rparr>) w1 = Some w2"
    and r2: "(if p = 0 then urng_jni_destroy r w2
          else do {
            w \<leftarrow> store p (\<lambda>b. b\<lparr>gp_unif := F_unif\<rparr>) w2;
            (case unur_urng_new p w of
               (u, w) \<Rightarrow> do {
                 w \<leftarrow> store_gen r (\<lambda>g. g\<lparr>uw_urng := u\<rparr>) w;
                 if u = 0 then urng_jni_destroy r w else Some w
               })
          }) = Some w'"
    by (auto simp: urng_jni_create_def bind_eq_Some_conv)
  have nn: "r \<noteq> NullGen" using s2 by (auto simp: store_gen_def)
  show ?thesis
  proof (cases "p = 0")
    case True
    with r2 have "urng_jni_destroy r w2 = Some w'" by simp
    from destroy_post[OF this nn] show ?thesis by simp
  next
    case False
    with r2 obtain w3 where s3: "store p (\<lambda>b. b\<lparr>gp_unif := F_unif\<rparr>) w2 = Some w3"
      and r3: "(case unur_urng_new p w3 of
               (u, w) \<Rightarrow> do {
                 w \<leftarrow> store_gen r (\<lambda>g. g\<lparr>uw_urng := u\<rparr>) w;
                 if u = 0 then urng_jni_destroy r w else Some w
               }) = Some w'"
      by (auto simp: bind_eq_Some_conv)
    obtain u w4 where n: "unur_urng_new p w3 = (u, w4)" by (cases "unur_urng_new p w3")
    with r3 obtain w5 where s5: "store_gen r (\<lambda>g. g\<lparr>uw_urng := u\<rparr>) w4 = Some w5"
      and r5: "(if u = 0 then urng_jni_destroy r w5 else Some w5) = Some w'"
      by (auto simp: bind_eq_Some_conv)
    show ?thesis
    proof (cases "u = 0")
      case True
      with r5 have "urng_jni_destroy r w5 = Some w'" by simp
      from destroy_post[OF this nn] show ?thesis by simp
    next
      case u: False
      with r5 have w': "w' = w5" by simp
      from load_store_gen[OF s2] obtain g2 :: UrngWithParams where
        g2: "load_gen r w2 = Some g2" "uw_params g2 = p"
        using s2 by (cases "load_gen r w1") (auto simp: store_gen_def load_gen_def store_np_def
            split: gen_ref.splits option.splits)
      have g4: "load_gen r w4 = Some g2"
        using store_load_gen[OF s3, of r] unur_urng_new_facts[OF n, of r] g2 by simp
      have g5: "load_gen r w5 = Some (g2\<lparr>uw_urng := u\<rparr>)"
        using load_store_gen[OF s5] g4 by simp
      have "urngs w5 u = Some p"
        using store_gen_heap[OF s5] unur_urng_new_facts[OF n, of r] u by simp
      moreover have "gen_params w5 p \<noteq> None"
        using store_gen_heap[OF s5] unur_urng_new_facts[OF n, of r] store_load_gen[OF s3, of r]
        by simp
      ultimately show ?thesis using g5 g2 u False w' by simp
    qed
  qed
qed

lemma create_total:
  assumes lg: "load_gen r w = Some g" and ok: "uw_urng g = 0 \<or> urngs w (uw_urng g) \<noteq> None"
  shows "urng_jni_create r w \<noteq> None"
  using assms
  by (cases r; cases "granted w"; cases "granted (w\<lparr>grants := tl (grants w)\<rparr>)")
     (auto simp: urng_jni_create_def urng_jni_destroy_def malloc_GenParams_def unur_urng_new_def
        request_alt granted_def load_gen_def store_gen_def store_np_def store_def free_GenParams_def
        unur_urng_free_def split: option.splits)

lemma store_gen_others:
  "store_gen r f w = Some w' \<Longrightarrow> r \<noteq> MainOf a \<Longrightarrow> r \<noteq> AuxOf a \<Longrightarrow>
     native_params w' a = native_params w a"
  by (cases r) (auto simp: store_gen_def store_np_def split: option.splits)

lemma destroy_others:
  assumes "urng_jni_destroy r w = Some w'" "r \<noteq> MainOf a" "r \<noteq> AuxOf a"
  shows "native_params w' a = native_params w a"
proof (cases "r = NullGen")
  case True
  with assms show ?thesis by (simp add: urng_jni_destroy_def)
next
  case False
  with assms(1) obtain g :: UrngWithParams and w1 and g1 :: UrngWithParams where
    s1: "(if uw_params g \<noteq> 0 then do {
                w \<leftarrow> free_GenParams (uw_params g) w;
                store_gen r (\<lambda>g. g\<lparr>uw_params := 0\<rparr>) w
              } else Some w) = Some w1"
    and s2: "(if uw_urng g1 \<noteq> 0 then do {
          w \<leftarrow> unur_urng_free (uw_urng g1) w1;
          store_gen r (\<lambda>g. g\<lparr>uw_urng := 0\<rparr>) w
        } else Some w1) = Some w'"
    by (auto simp: urng_jni_destroy_def bind_eq_Some_conv)
  from s1 have "native_params w1 a = native_params w a"
    using assms(2,3)
    by (auto simp: bind_eq_Some_conv free_GenParams_def split: if_splits option.splits
        dest!: store_gen_others[where a = a])
  moreover from s2 have "native_params w' a = native_params w1 a"
    using assms(2,3)
    by (auto simp: bind_eq_Some_conv unur_urng_free_def split: if_splits option.splits
        dest!: store_gen_others[where a = a])
  ultimately show ?thesis by simp
qed

lemma close_free_others:
  assumes "close_free np w = Some w'"
  shows "native_params w' a = (if a = np then None else native_params w a)"
proof -
  from assms obtain w1 w2 and npv :: NativeParams and w3 w4 w5 where
    1: "urng_jni_destroy (AuxOf np) w = Some w1"
    and 2: "urng_jni_destroy (MainOf np) w1 = Some w2"
    and 3: "unur_free (np_unurgen npv) w2 = Some w3"
    and 4: "(if np_objAuxStream npv \<noteq> 0 then DeleteGlobalRef (np_objAuxStream npv) w3
           else Some w3) = Some w4"
    and 5: "(if np_objMainStream npv \<noteq> 0 then DeleteGlobalRef (np_objMainStream npv) w4
           else Some w4) = Some w5"
    and 6: "free_NativeParams np w5 = Some w'"
    by (auto simp: close_free_def bind_eq_Some_conv)
  have 60: "native_params w' = (native_params w5)(np := None)"
    using 6 by (auto simp: free_NativeParams_def split: option.splits)
  show ?thesis
  proof (cases "a = np")
    case True
    with 60 show ?thesis by simp
  next
    case False
    have "native_params w1 a = native_params w a" "native_params w2 a = native_params w1 a"
      using destroy_others[OF 1, of a] destroy_others[OF 2, of a] False by simp_all
    moreover have "native_params w3 = native_params w2"
      using 3 by (auto simp: unur_free_def split: if_splits option.splits)
    moreover have "native_params w4 = native_params w3" "native_params w5 = native_params w4"
      using 4 5 by (auto simp: DeleteGlobalRef_def split: if_splits)
    ultimately show ?thesis using 60 False by simp
  qed
qed

lemma close_others:
  assumes "RandUnuran_close env obj w = Some w'"
  shows "native_params w' a =
           (if nativeParams w obj \<noteq> 0 \<and> a = nativeParams w obj then None else native_params w a)"
proof (cases "nativeParams w obj = 0")
  case True
  with assms show ?thesis by (simp add: close_alt split: if_splits)
next
  case False
  with assms obtain w1 where 1: "close_free (nativeParams w obj) w = Some w1"
    and 2: "w' = w1\<lparr>nativeParams := (nativeParams w1)(obj := 0)\<rparr>"
    by (auto simp: close_alt split: if_splits)
  from close_free_others[OF 1, of a] 2 False show ?thesis by simp
qed

lemma close_adapters_inv:
  assumes "RandUnuran_close env obj w = Some w'" "adapters_inv w"
  shows "adapters_inv w'"
  using close_others[OF assms(1)] assms(2)
  by (auto simp: adapters_inv_def split: if_splits)

lemma create_heap:
  assumes "urng_jni_create r w = Some w'" "load_gen r w = Some g0" "uw_urng g0 = 0"
    "0 < next_addr w" "gen_params w (next_addr w) = None"
  shows "\<exists>g. load_gen r w' = Some g \<and>
           (uw_params g = next_addr w \<and> uw_urng g = next_addr w + 1
              \<and> gen_params w' = (gen_params w)(next_addr w \<mapsto>
                    (fresh_block w)\<lparr>gp_env := 0, gp_unif := F_unif\<rparr>)
              \<and> urngs w' = (urngs w)(next_addr w + 1 \<mapsto> next_addr w)
            \<or> uw_urng g = 0 \<and> uw_params g = 0
              \<and> gen_params w' = gen_params w \<and> urngs w' = urngs w)"
  using assms
  by (cases r; cases "granted w"; cases "granted (w\<lparr>grants := tl (grants w)\<rparr>)")
     (auto simp: urng_jni_create_def urng_jni_destroy_def malloc_GenParams_def unur_urng_new_def
        request_alt granted_def load_gen_def store_gen_def store_np_def store_def free_GenParams_def
        unur_urng_free_def fun_upd_idem split: option.splits)

lemma destroy_heap:
  assumes "urng_jni_destroy r w = Some w'" "load_gen r w = Some g"
  shows "gen_params w' = (if uw_params g \<noteq> 0 then (gen_params w)(uw_params g := None)
                           else gen_params w)
       \<and> urngs w' = (if uw_urng g \<noteq> 0 then (urngs w)(uw_urng g := None) else urngs w)"
proof -
  have nn: "r \<noteq> NullGen" using assms(2) by (auto simp: load_gen_def)
  with assms obtain w1 and g1 :: UrngWithParams where
    s1: "(if uw_params g \<noteq> 0 then do {
                w \<leftarrow> free_GenParams (uw_params g) w;
                store_gen r (\<lambda>g. g\<lparr>uw_params := 0\<rparr>) w
              } else Some w) = Some w1"
    and lg1: "load_gen r w1 = Some g1"
    and s2: "(if uw_urng g1 \<noteq> 0 then do {
          w \<leftarrow> unur_urng_free (uw_urng g1) w1;
          store_gen r (\<lambda>g. g\<lparr>uw_urng := 0\<rparr>) w
        } else Some w1) = Some w'"
    by (auto simp: urng_jni_destroy_def bind_eq_Some_conv)
  have 1: "gen_params w1 = (if uw_params g \<noteq> 0 then (gen_params w)(uw_params g := None)
                           else gen_params w) \<and> urngs w1 = urngs w \<and> uw_urng g1 = uw_urng g"
  proof (cases "uw_params g = 0")
    case True
    with s1 lg1 assms(2) show ?thesis by simp
  next
    case False
    with s1 obtain wa where f: "free_GenParams (uw_params g) w = Some wa"
      and s: "store_gen r (\<lambda>g. g\<lparr>uw_params := 0\<rparr>) wa = Some w1"
      by (auto simp: bind_eq_Some_conv)
    from f have "gen_params wa = (gen_params w)(uw_params g := None)" "urngs wa = urngs w"
      by (auto simp: free_GenParams_def split: option.splits)
    moreover from load_store_gen[OF s] load_gen_free(1)[OF f, of r] assms(2) lg1
    have "uw_urng g1 = uw_urng g" by auto
    ultimately show ?thesis using store_gen_heap[OF s] False by simp
  qed
  have 2: "gen_params w' = gen_params w1
       \<and> urngs w' = (if uw_urng g1 \<noteq> 0 then (urngs w1)(uw_urng g1 := None) else urngs w1)"
  proof (cases "uw_urng g1 = 0")
    case True
    with s2 show ?thesis by simp
  next
    case False
    with s2 obtain wa where f: "unur_urng_free (uw_urng g1) w1 = Some wa"
      and s: "store_gen r (\<lambda>g. g\<lparr>uw_urng := 0\<rparr>) wa = Some w'"
      by (auto simp: bind_eq_Some_conv)
    from f have "urngs wa = (urngs w1)(uw_urng g1 := None)" "gen_params wa = gen_params w1"
      by (auto simp: unur_urng_free_def split: option.splits)
    then show ?thesis using store_gen_heap[OF s] False by simp
  qed
  from 1 2 show ?thesis by simp
qed

lemma store_keeps_np:
  "store p f w = Some w' \<Longrightarrow> native_params w' = native_params w"
  by (auto simp: store_def split: option.splits)

lemma getRandDisc_frame:
  assumes "getRandDisc env obj u np w = Some (x, w')"
  shows "native_params w' = native_params w"
proof -
  from assms obtain npv :: NativeParams and w1 w2 w3 w4 w5 where
    "store (uw_params (np_urng npv)) (\<lambda>b. b\<lparr>gp_env := env\<rparr>) w = Some w1"
    "store (uw_params (np_urng npv)) (\<lambda>b. b\<lparr>gp_u := u\<rparr>) w1 = Some w2"
    "store (uw_params (np_urng npv)) (\<lambda>b. b\<lparr>gp_unif := F_cons\<rparr>) w2 = Some w3"
    "store (uw_params (np_urng_aux npv)) (\<lambda>b. b\<lparr>gp_env := env\<rparr>) w3 = Some w4"
    "store (uw_params (np_urng_aux npv)) (\<lambda>b. b\<lparr>gp_unif := F_unif\<rparr>) w4 = Some w5"
    "unur_sample_discr (np_unurgen npv) w5 = Some (x, w')"
    by (auto simp: getRandDisc_def Let_def bind_eq_Some_conv)
  then show ?thesis
    using unur_sample_discr_frame[of "np_unurgen npv" w5 x w']
    by (auto dest!: store_keeps_np)
qed

lemma getRandCont_frame:
  assumes "getRandCont env obj u np w = Some (x, w')"
  shows "native_params w' = native_params w"
proof -
  from assms obtain npv :: NativeParams and w1 w2 w3 w4 w5 where
    "store (uw_params (np_urng npv)) (\<lambda>b. b\<lparr>gp_env := env\<rparr>) w = Some w1"
    "store (uw_params (np_urng npv)) (\<lambda>b. b\<lparr>gp_u := u\<rparr>) w1 = Some w2"
    "store (uw_params (np_urng npv)) (\<lambda>b. b\<lparr>gp_unif := F_cons\<rparr>) w2 = Some w3"
    "store (uw_params (np_urng_aux npv)) (\<lambda>b. b\<lparr>gp_env := env\<rparr>) w3 = Some w4"
    "store (uw_params (np_urng_aux npv)) (\<lambda>b. b\<lparr>gp_unif := F_unif\<rparr>) w4 = Some w5"
    "unur_sample_cont (np_unurgen npv) w5 = Some (x, w')"
    by (auto simp: getRandCont_def Let_def bind_eq_Some_conv)
  then show ?thesis
    using unur_sample_cont_frame[of "np_unurgen npv" w5 x w']
    by (auto dest!: store_keeps_np)
qed

lemma unur_sample_vec_frame:
  assumes "unur_sample_vec g vec w = Some w'"
  shows "native_params w' = native_params w"
proof -
  from assms obtain gen :: UNUR_GEN and r w1 where
    r: "run_sampler (gen_vec gen) (gen_urng gen) (gen_urng_aux gen)
          (w\<lparr>sample_calls := Suc (sample_calls w)\<rparr>) = Some (r, w1)"
    and "native_params w' = native_params w1"
    by (cases "gens w g") (auto simp: unur_sample_vec_def split: option.splits if_splits)
  then show ?thesis using run_sampler_frame[OF r] by simp
qed

lemma getRandVec_frame:
  assumes "getRandVec env obj u np jvec w = Some w'"
  shows "native_params w' = native_params w"
proof -
  from assms obtain npv :: NativeParams and w1 w2 w3 w4 w5 len where
    s: "store (uw_params (np_urng npv)) (\<lambda>b. b\<lparr>gp_u := u\<rparr>) w = Some w1"
    "store (uw_params (np_urng npv)) (\<lambda>b. b\<lparr>gp_unif := F_cons\<rparr>) w1 = Some w2"
    "store (uw_params (np_urng npv)) (\<lambda>b. b\<lparr>gp_env := env\<rparr>) w2 = Some w3"
    "store (uw_params (np_urng_aux npv)) (\<lambda>b. b\<lparr>gp_env := env\<rparr>) w3 = Some w4"
    "store (uw_params (np_urng_aux npv)) (\<lambda>b. b\<lparr>gp_unif := F_unif\<rparr>) w4 = Some w5"
    and rest: "(if len < np_dim npv then
       (case FindClass ''umontreal/ssj/randvar/UnuranException'' w5 of
          (expcls, w) \<Rightarrow>
            if \<not> expcls then Some w
            else Some (ThrowNew ''umontreal/ssj/randvar/UnuranException'' ''array too short'' w))
     else do {
       (vec, w) \<leftarrow> GetDoubleArrayElements jvec w5;
       if vec = 0 then Some w
       else do {
         w \<leftarrow> unur_sample_vec (np_unurgen npv) vec w;
         Some (ReleaseDoubleArrayElements jvec vec w)
       }
     }) = Some w'"
    by (auto simp: getRandVec_def Let_def bind_eq_Some_conv)
  have 5: "native_params w5 = native_params w"
    using s by (auto dest!: store_keeps_np)
  have "native_params w' = native_params w5"
  proof (cases "len < np_dim npv")
    case True
    with rest show ?thesis
      by (auto simp: FindClass_def ThrowNew_def split: if_splits)
  next
    case False
    with rest obtain vec w6 where g: "GetDoubleArrayElements jvec w5 = Some (vec, w6)"
      and r: "(if vec = 0 then Some w6
       else do {
         w \<leftarrow> unur_sample_vec (np_unurgen npv) vec w6;
         Some (ReleaseDoubleArrayElements jvec vec w)
       }) = Some w'"
      by (auto simp: bind_eq_Some_conv)
    from r have "native_params w' = native_params w6"
      by (auto simp: bind_eq_Some_conv ReleaseDoubleArrayElements_def split: if_splits
          dest!: unur_sample_vec_frame)
    with GetDoubleArrayElements_frame[OF g] show ?thesis by simp
  qed
  with 5 show ?thesis by simp
qed

subsection \<open>Initialisation\<close>

lemmas handle_defs = init_handle_def urng_jni_create_def urng_jni_destroy_def
      malloc_GenParams_def malloc_NativeParams_def request_alt granted_def store_gen_def load_gen_def store_def store_np_def
      unur_urng_new_def FindClass_def unur_str2gen_def unur_get_dimension_def init_urngs_def init_streams_def
      unur_chg_urng_def unur_chg_urng_aux_def NewGlobalRef_def ThrowNew_def
      SetLongField_nativeParams_def GetObjectField_mainStream_def GetObjectField_auxStream_def
      close_alt close_free_def free_GenParams_def free_NativeParams_def unur_urng_free_def unur_free_def DeleteGlobalRef_def Let_def

lemma init_handle_ready:
  assumes "0 < next_addr w" "uw_params (default_urng w) < next_addr w"
    "gen_params w (uw_params (default_urng w)) = Some bd" "nativeParams w obj = 0"
    "fidNativeParams w" "fidMainStream w" "fidAuxStream w" "pending w = None"
  shows "\<exists>w'. init_handle env obj str w = Some w' \<and> (nativeParams w' obj = 0 \<or> handle_ready obj w')"
  using assms
  by (simp add: handle_defs handle_ready_def mode_of_def split: sum.split)

lemma init_handle_np:
  assumes "0 < next_addr w" "uw_params (default_urng w) < next_addr w"
    "gen_params w (uw_params (default_urng w)) = Some bd" "nativeParams w obj = 0"
    "fidNativeParams w" "fidMainStream w" "fidAuxStream w" "pending w = None"
  shows "\<exists>w'. init_handle env obj str w = Some w' \<and> (nativeParams w' obj = 0 \<longrightarrow> (\<forall>a. native_params w a = None \<longrightarrow> native_params w' a = None))"
  using assms
  by (simp add: handle_defs  split: sum.split)

lemma init_handle_gens:
  assumes "0 < next_addr w" "uw_params (default_urng w) < next_addr w"
    "gen_params w (uw_params (default_urng w)) = Some bd" "nativeParams w obj = 0"
    "fidNativeParams w" "fidMainStream w" "fidAuxStream w" "pending w = None"
  shows "\<exists>w'. init_handle env obj str w = Some w' \<and> (nativeParams w' obj = 0 \<longrightarrow> (\<forall>a. gens w a = None \<longrightarrow> gens w' a = None))"
  using assms
  by (simp add: handle_defs  split: sum.split)

lemma init_handle_refs:
  assumes "0 < next_addr w" "uw_params (default_urng w) < next_addr w"
    "gen_params w (uw_params (default_urng w)) = Some bd" "nativeParams w obj = 0"
    "fidNativeParams w" "fidMainStream w" "fidAuxStream w" "pending w = None"
  shows "\<exists>w'. init_handle env obj str w = Some w' \<and> (nativeParams w' obj = 0 \<longrightarrow> global_refs w' = global_refs w)"
  using assms
  by (simp add: handle_defs  split: sum.split)

lemma init_handle_gp:
  assumes "0 < next_addr w" "uw_params (default_urng w) < next_addr w"
    "gen_params w (uw_params (default_urng w)) = Some bd" "nativeParams w obj = 0"
    "fidNativeParams w" "fidMainStream w" "fidAuxStream w" "pending w = None"
  shows "\<exists>w'. init_handle env obj str w = Some w' \<and> (nativeParams w' obj = 0 \<longrightarrow> (\<forall>a. a \<noteq> uw_params (default_urng w') \<longrightarrow> gen_params w a = None \<longrightarrow> gen_params w' a = None))"
  using assms
  by (simp add: handle_defs  split: sum.split)

lemma init_handle_urngs:
  assumes "0 < next_addr w" "uw_params (default_urng w) < next_addr w"
    "gen_params w (uw_params (default_urng w)) = Some bd" "nativeParams w obj = 0"
    "fidNativeParams w" "fidMainStream w" "fidAuxStream w" "pending w = None"
  shows "\<exists>w'. init_handle env obj str w = Some w' \<and> (nativeParams w' obj = 0 \<longrightarrow> (\<forall>a. urngs w a = None \<longrightarrow> urngs w' a = None))"
  using assms
  by (simp add: handle_defs  split: sum.split)

lemma init_handle_dflt:
  assumes "0 < next_addr w" "uw_params (default_urng w) < next_addr w"
    "gen_params w (uw_params (default_urng w)) = Some bd" "nativeParams w obj = 0"
    "fidNativeParams w" "fidMainStream w" "fidAuxStream w" "pending w = None"
  shows "\<exists>w'. init_handle env obj str w = Some w' \<and> (default_urng w' = default_urng w)"
  using assms
  by (simp add: handle_defs  split: sum.split)

lemma init_handle_fid:
  assumes "0 < next_addr w" "uw_params (default_urng w) < next_addr w"
    "gen_params w (uw_params (default_urng w)) = Some bd" "nativeParams w obj = 0"
    "fidNativeParams w" "fidMainStream w" "fidAuxStream w" "pending w = None"
  shows "\<exists>w'. init_handle env obj str w = Some w' \<and> fidNativeParams w'"
  using assms
  by (simp add: handle_defs  split: sum.split)

lemma init_handle_inv:
  assumes "0 < next_addr w" "uw_params (default_urng w) < next_addr w"
    "gen_params w (uw_params (default_urng w)) = Some bd" "nativeParams w obj = 0"
    "fidNativeParams w" "fidMainStream w" "fidAuxStream w" "pending w = None"
  shows "\<exists>w'. init_handle env obj str w = Some w' \<and> (adapters_inv w \<longrightarrow> adapters_inv w')"
  using assms
  by (simp add: handle_defs adapters_inv_def adapter_inv_def split: sum.split)

lemma init_handle_fail:
  assumes "0 < next_addr w" "uw_params (default_urng w) < next_addr w"
    "gen_params w (uw_params (default_urng w)) = Some bd" "nativeParams w obj = 0"
    "fidNativeParams w" "fidMainStream w" "fidAuxStream w" "pending w = None"
    "str2gen w str = Inl msg"
  shows "\<exists>w'. init_handle env obj str w = Some w' \<and> nativeParams w' obj = 0"
  using assms
  by (simp add: handle_defs)

lemma init_handle_fail_message:
  assumes "0 < next_addr w" "uw_params (default_urng w) < next_addr w"
    "gen_params w (uw_params (default_urng w)) = Some bd" "nativeParams w obj = 0"
    "fidNativeParams w" "fidMainStream w" "fidAuxStream w" "pending w = None"
    "str2gen w str = Inl msg" "grants w = []"
    "class_found w ''umontreal/ssj/randvar/UnuranException''"
  shows "\<exists>w'. init_handle env obj str w = Some w' \<and>
      pending w' = Some (Throwable ''umontreal/ssj/randvar/UnuranException''
                           (''cannot create UNURAN generator: '' @ msg))"
  using assms
  by (simp add: handle_defs)

lemma cached_id_alt:
  "cached_id c err name w =
     (c \<or> member_found w name,
      if c \<or> member_found w name then w
      else w\<lparr>pending := Some (Throwable err name)\<rparr>)"
  by (simp add: cached_id_def)

lemma initClass_ids_frame:
  "(snd (initClass_ids w))\<lparr>pending := pending w, fidNativeParams := fidNativeParams w,
       fidMainStream := fidMainStream w, fidAuxStream := fidAuxStream w,
       midNextDouble := midNextDouble w, midNextArrayOfDouble := midNextArrayOfDouble w\<rparr> = w"
  by (simp add: initClass_ids_def cached_id_alt FindClass_def Let_def)

lemma initClass_ids_granted:
  assumes "\<And>c. class_found w c" "\<And>m. member_found w m"
  shows "fst (initClass_ids w)"
  using assms by (simp add: initClass_ids_def cached_id_alt FindClass_def Let_def)

lemma initClass_ids_fids:
  "fst (initClass_ids w) \<Longrightarrow>
     fidNativeParams (snd (initClass_ids w)) \<and> fidMainStream (snd (initClass_ids w))
     \<and> fidAuxStream (snd (initClass_ids w)) \<and> pending (snd (initClass_ids w)) = pending w"
  by (auto simp: initClass_ids_def cached_id_alt FindClass_def Let_def split: if_splits)

lemma initClass_ids_keeps_fid:
  "fidNativeParams w \<Longrightarrow> fidNativeParams (snd (initClass_ids w))"
  by (simp add: initClass_ids_def cached_id_alt FindClass_def Let_def)

lemma ids_fields:
  "gen_params (snd (initClass_ids w)) = gen_params w"
  "urngs (snd (initClass_ids w)) = urngs w"
  "gens (snd (initClass_ids w)) = gens w"
  "native_params (snd (initClass_ids w)) = native_params w"
  "next_addr (snd (initClass_ids w)) = next_addr w"
  "default_urng (snd (initClass_ids w)) = default_urng w"
  "nativeParams (snd (initClass_ids w)) = nativeParams w"
  "global_refs (snd (initClass_ids w)) = global_refs w"
  "grants (snd (initClass_ids w)) = grants w"
  "str2gen (snd (initClass_ids w)) = str2gen w"
  "class_found (snd (initClass_ids w)) = class_found w"
  using arg_cong[OF initClass_ids_frame[of w], of gen_params]
    arg_cong[OF initClass_ids_frame[of w], of urngs]
    arg_cong[OF initClass_ids_frame[of w], of gens]
    arg_cong[OF initClass_ids_frame[of w], of native_params]
    arg_cong[OF initClass_ids_frame[of w], of next_addr]
    arg_cong[OF initClass_ids_frame[of w], of default_urng]
    arg_cong[OF initClass_ids_frame[of w], of nativeParams]
    arg_cong[OF initClass_ids_frame[of w], of global_refs]
    arg_cong[OF initClass_ids_frame[of w], of grants]
    arg_cong[OF initClass_ids_frame[of w], of str2gen]
    arg_cong[OF initClass_ids_frame[of w], of class_found]
  by simp_all

lemmas class_defs = initClass_def urng_jni_create_def
  urng_jni_destroy_def malloc_GenParams_def request_alt granted_def store_gen_def load_gen_def
  store_def unur_urng_new_def FindClass_def ThrowNew_def free_GenParams_def unur_urng_free_def
  Let_def init_ready_def ids_fields initClass_ids_keeps_fid

lemma initClass_outcome:
  assumes "init_ready w"
  shows "case initClass w of None \<Rightarrow> False | Some r \<Rightarrow>
        nativeParams (snd r) = nativeParams w \<and> native_params (snd r) = native_params w
      \<and> gens (snd r) = gens w \<and> global_refs (snd r) = global_refs w
      \<and> str2gen (snd r) = str2gen w \<and> class_found (snd r) = class_found w
      \<and> 0 < next_addr (snd r)
      \<and> (fst r \<longrightarrow> uw_params (default_urng (snd r)) < next_addr (snd r)
                 \<and> gen_params (snd r) (uw_params (default_urng (snd r))) \<noteq> None)
      \<and> (\<forall>a. a \<noteq> uw_params (default_urng (snd r)) \<longrightarrow> gen_params w a = None \<longrightarrow>
               gen_params (snd r) a = None)
      \<and> (\<forall>a. a \<noteq> uw_urng (default_urng (snd r)) \<longrightarrow> urngs w a = None \<longrightarrow>
               urngs (snd r) a = None)
      \<and> (adapter_inv (default_urng w) \<longrightarrow> adapter_inv (default_urng (snd r)))
      \<and> (fidNativeParams w \<longrightarrow> fidNativeParams (snd r))"
  using assms
  by (simp add: class_defs adapter_inv_def)

lemma initClass_fids:
  assumes "init_ready w"
  shows "case initClass w of None \<Rightarrow> False | Some r \<Rightarrow>
        fst r \<longrightarrow> fidNativeParams (snd r) \<and> fidMainStream (snd r) \<and> fidAuxStream (snd r)
                 \<and> pending (snd r) = None"
  using assms
  by (simp add: class_defs initClass_ids_fids)

lemma initClass_granted:
  assumes "init_ready w" "grants w = []" "\<And>c. class_found w c" "\<And>m. member_found w m"
  shows "case initClass w of None \<Rightarrow> False | Some r \<Rightarrow> fst r \<and> grants (snd r) = []"
  using assms
  by (simp add: class_defs initClass_ids_granted)

lemma init_outcome:
  assumes ir: "init_ready w" and fresh: "nativeParams w obj = 0"
  shows "\<exists>w'. RandUnuran_init env obj str w = Some w'
       \<and> (nativeParams w' obj = 0 \<and> no_new_blocks w w' \<or> handle_ready obj w')
       \<and> (adapters_inv w \<longrightarrow> adapters_inv w')
       \<and> (\<forall>msg. str2gen w str = Inl msg \<longrightarrow> nativeParams w' obj = 0)
       \<and> (\<forall>msg. str2gen w str = Inl msg \<and> grants w = [] \<and> (\<forall>c. class_found w c)
              \<and> (\<forall>m. member_found w m) \<longrightarrow>
            pending w' = Some (Throwable ''umontreal/ssj/randvar/UnuranException''
                                 (''cannot create UNURAN generator: '' @ msg)))
       \<and> ((\<exists>w1. initClass w = Some (True, w1)) \<longrightarrow> fidNativeParams w')
       \<and> (fidNativeParams w \<longrightarrow> fidNativeParams w')"
proof -
  from initClass_outcome[OF ir] obtain r where r: "initClass w = Some r"
    and f1: "nativeParams (snd r) = nativeParams w" "native_params (snd r) = native_params w"
      "gens (snd r) = gens w" "global_refs (snd r) = global_refs w"
      "str2gen (snd r) = str2gen w" "class_found (snd r) = class_found w"
      "0 < next_addr (snd r)"
    and f2: "fst r \<longrightarrow> uw_params (default_urng (snd r)) < next_addr (snd r)
                 \<and> gen_params (snd r) (uw_params (default_urng (snd r))) \<noteq> None"
    and f3: "\<forall>a. a \<noteq> uw_params (default_urng (snd r)) \<longrightarrow> gen_params w a = None \<longrightarrow>
               gen_params (snd r) a = None"
    and f4: "\<forall>a. a \<noteq> uw_urng (default_urng (snd r)) \<longrightarrow> urngs w a = None \<longrightarrow>
               urngs (snd r) a = None"
    and f5: "fidNativeParams w \<longrightarrow> fidNativeParams (snd r)"
    by (cases "initClass w") simp_all
  from initClass_fids[OF ir] r
  have f6: "fst r \<longrightarrow> fidNativeParams (snd r) \<and> fidMainStream (snd r) \<and> fidAuxStream (snd r)
                 \<and> pending (snd r) = None"
    by simp
  define w1 where "w1 = snd r"
  have gr: "fst r \<and> grants w1 = []"
    if "grants w = []" "\<forall>c. class_found w c" "\<forall>m. member_found w m"
    using initClass_granted[OF ir that(1)] that(2,3) r by (simp add: w1_def)
  show ?thesis
  proof (cases "fst r")
    case False
    have run: "RandUnuran_init env obj str w = Some w1"
      using r False by (cases r) (simp add: RandUnuran_init_def w1_def)
    have n1: "no_new_blocks w w1"
      unfolding no_new_blocks_def w1_def using f1 f3 f4 by metis
    have i1: "adapters_inv w \<longrightarrow> adapters_inv w1"
      using f1 by (simp add: adapters_inv_def w1_def)
    have z1: "nativeParams w1 obj = 0" using f1 fresh by (simp add: w1_def)
    show ?thesis
    proof (intro exI[of _ w1] conjI allI impI)
      show "RandUnuran_init env obj str w = Some w1" by (rule run)
      show "nativeParams w1 obj = 0 \<and> no_new_blocks w w1 \<or> handle_ready obj w1"
        using n1 z1 by simp
      show "adapters_inv w1" if "adapters_inv w" using i1 that by simp
      show "nativeParams w1 obj = 0" for msg by (rule z1)
      show "pending w1 = Some (Throwable ''umontreal/ssj/randvar/UnuranException''
                                 (''cannot create UNURAN generator: '' @ msg))"
        if "str2gen w str = Inl msg \<and> grants w = [] \<and> (\<forall>c. class_found w c)
              \<and> (\<forall>m. member_found w m)" for msg
        using gr that False by blast
      show "fidNativeParams w1" if "\<exists>w1. initClass w = Some (True, w1)"
        using that r False by auto
      show "fidNativeParams w1" if "fidNativeParams w"
        using that f5 by (simp add: w1_def)
    qed
  next
    case True
    have run: "RandUnuran_init env obj str w = init_handle env obj str w1"
      using r True by (cases r) (simp add: RandUnuran_init_def w1_def)
    from f2 True obtain bd where bd: "gen_params w1 (uw_params (default_urng w1)) = Some bd"
      and lt: "uw_params (default_urng w1) < next_addr w1"
      by (auto simp: w1_def)
    have pos: "0 < next_addr w1" and fr1: "nativeParams w1 obj = 0"
      using f1 fresh by (simp_all add: w1_def)
    have ids: "fidNativeParams w1" "fidMainStream w1" "fidAuxStream w1" "pending w1 = None"
      using f6 True by (simp_all add: w1_def)
    note pre = pos lt bd fr1 ids
    from init_handle_ready[OF pre] obtain w' where w': "init_handle env obj str w1 = Some w'"
      and rdy: "nativeParams w' obj = 0 \<or> handle_ready obj w'" by blast
    have a1: "nativeParams w' obj = 0 \<longrightarrow> (\<forall>a. native_params w1 a = None \<longrightarrow> native_params w' a = None)"
      using init_handle_np[OF pre, of env str] w' by simp
    have a2: "nativeParams w' obj = 0 \<longrightarrow> (\<forall>a. gens w1 a = None \<longrightarrow> gens w' a = None)"
      using init_handle_gens[OF pre, of env str] w' by simp
    have a3: "nativeParams w' obj = 0 \<longrightarrow> global_refs w' = global_refs w1"
      using init_handle_refs[OF pre, of env str] w' by simp
    have a4: "nativeParams w' obj = 0 \<longrightarrow> (\<forall>a. a \<noteq> uw_params (default_urng w') \<longrightarrow>
                gen_params w1 a = None \<longrightarrow> gen_params w' a = None)"
      using init_handle_gp[OF pre, of env str] w' by simp
    have a5: "nativeParams w' obj = 0 \<longrightarrow> (\<forall>a. urngs w1 a = None \<longrightarrow> urngs w' a = None)"
      using init_handle_urngs[OF pre, of env str] w' by simp
    have a6: "default_urng w' = default_urng w1"
      using init_handle_dflt[OF pre, of env str] w' by simp
    have a7: "adapters_inv w1 \<longrightarrow> adapters_inv w'"
      using init_handle_inv[OF pre, of env str] w' by simp
    have a8: "fidNativeParams w'"
      using init_handle_fid[OF pre, of env str] w' by simp
    have b1: "native_params w1 = native_params w" "gens w1 = gens w"
      "global_refs w1 = global_refs w"
      using f1 by (simp_all add: w1_def)
    have b2: "gen_params w1 a = None"
      if "a \<noteq> uw_params (default_urng w1)" "gen_params w a = None" for a
      using f3 that unfolding w1_def by blast
    have b3: "urngs w1 a = None" if "a \<noteq> uw_urng (default_urng w1)" "urngs w a = None" for a
      using f4 that unfolding w1_def by blast
    have nnb: "no_new_blocks w w'" if z: "nativeParams w' obj = 0"
      unfolding no_new_blocks_def
    proof (intro conjI allI impI)
      fix a assume "native_params w a = None"
      then show "native_params w' a = None" using a1 z b1 by metis
    next
      fix a assume "gens w a = None"
      then show "gens w' a = None" using a2 z b1 by metis
    next
      show "global_refs w' = global_refs w" using a3 z b1 by metis
    next
      fix a assume "a \<noteq> uw_params (default_urng w')" "gen_params w a = None"
      then show "gen_params w' a = None" using a4 z b2 a6 by metis
    next
      fix a assume "a \<noteq> uw_urng (default_urng w')" "urngs w a = None"
      then show "urngs w' a = None" using a5 z b3 a6 by metis
    qed
    have "adapters_inv w1 = adapters_inv w"
      by (simp add: adapters_inv_def b1)
    with a7 have inv: "adapters_inv w \<longrightarrow> adapters_inv w'" by simp
    have fail: "nativeParams w' obj = 0" if "str2gen w str = Inl msg" for msg
    proof -
      have "str2gen w1 str = Inl msg" using that f1 by (simp add: w1_def)
      from init_handle_fail[OF pre this, of env] w' show ?thesis by simp
    qed
    have msg: "pending w' = Some (Throwable ''umontreal/ssj/randvar/UnuranException''
                                 (''cannot create UNURAN generator: '' @ msg))"
      if "str2gen w str = Inl msg" "grants w = []" "\<forall>c. class_found w c"
         "\<forall>m. member_found w m" for msg
    proof -
      have 1: "str2gen w1 str = Inl msg" using that f1 by (simp add: w1_def)
      have 2: "grants w1 = []" using gr that by simp
      have 3: "class_found w1 ''umontreal/ssj/randvar/UnuranException''"
        using that f1 by (simp add: w1_def)
      from init_handle_fail_message[OF pre 1 2 3, of env] w' show ?thesis by simp
    qed
    show ?thesis
    proof (intro exI[of _ w'] conjI allI impI)
      show "RandUnuran_init env obj str w = Some w'" using run w' by simp
      show "nativeParams w' obj = 0 \<and> no_new_blocks w w' \<or> handle_ready obj w'"
        using rdy nnb by blast
      show "adapters_inv w'" if "adapters_inv w" using inv that by simp
      show "nativeParams w' obj = 0" if "str2gen w str = Inl m" for m
        using fail that by blast
      show "pending w' = Some (Throwable ''umontreal/ssj/randvar/UnuranException''
                                 (''cannot create UNURAN generator: '' @ m))"
        if "str2gen w str = Inl m \<and> grants w = [] \<and> (\<forall>c. class_found w c)
              \<and> (\<forall>m. member_found w m)" for m
        using msg[of m] that by blast
      show "fidNativeParams w'" by (rule a8)
      show "fidNativeParams w'" by (rule a8)
    qed
  qed
qed

subsection \<open>The life of a RandUnuran object\<close>

lemma example_fresh_ready: "init_ready example_fresh" "nativeParams example_fresh 1 = 0"
  by (simp_all add: init_ready_def example_fresh_def)

text \<open>
  When the identifier of the field \<^verbatim>\<open>nativeParams\<close> is cached, \<^verbatim>\<open>close\<close> is idempotent:
  with a null field it returns the world it was given, and a call that returns leaves the
  field null and the identifier cached, so a second call changes nothing.
\<close>

lemma close_idempotent_cached:
  "(fidNativeParams w \<and> nativeParams w obj = 0 \<longrightarrow> RandUnuran_close env obj w = Some w)
   \<and> (RandUnuran_close env obj w = Some w' \<longrightarrow>
        nativeParams w' obj = 0 \<and> RandUnuran_close env' obj w' = Some w')"
  using close_null[of w obj env] close_then_null[of env obj w w'] close_null[of w' obj env']
  by blast

text \<open>
  Claim C4, evaluated. The first initialisation in a process fails in \<^verbatim>\<open>initClass\<close>: the
  allocation of the parameter block of the default uniform generator is refused.
  \<^verbatim>\<open>initClass\<close> returns before the lookup of the field \<^verbatim>\<open>nativeParams\<close>, so the static
  variable \<^verbatim>\<open>fidNativeParams\<close> is still 0 when the initialisation returns with its
  exception. A call of \<^verbatim>\<open>close\<close> on that object, whose field \<^verbatim>\<open>nativeParams\<close> is null, passes
  this 0 to \<^verbatim>\<open>GetLongField\<close>: the call is undefined where the claim has it change nothing.
\<close>

theorem close_after_failed_class_init:
  "map_option fidNativeParams
     (RandUnuran_init 7 1 ''ok'' (example_fresh\<lparr>grants := [False]\<rparr>)) = Some False
   \<and> Option.bind (RandUnuran_init 7 1 ''ok'' (example_fresh\<lparr>grants := [False]\<rparr>))
        (GetLongField_nativeParams 1) = None
   \<and> Option.bind (RandUnuran_init 7 1 ''ok'' (example_fresh\<lparr>grants := [False]\<rparr>)) pending
       = Some (Throwable ''umontreal/ssj/randvar/UnuranException''
                 ''cannot create default uniform rng'')
   \<and> Option.bind (RandUnuran_init 7 1 ''ok'' (example_fresh\<lparr>grants := [False]\<rparr>))
        (RandUnuran_close 7 1) = None"
proof -
  have "RandUnuran_init 7 1 ''ok'' (example_fresh\<lparr>grants := [False]\<rparr>)
      = Some (example_fresh\<lparr>grants := [],
                pending := Some (Throwable ''umontreal/ssj/randvar/UnuranException''
                                   ''cannot create default uniform rng'')\<rparr>)"
    by (simp add: RandUnuran_init_def class_defs example_fresh_def)
  then show ?thesis
    by (simp add: close_undefined GetLongField_nativeParams_def example_fresh_def)
qed

text \<open>
  Claim C5. \<^verbatim>\<open>close\<close> takes the pending exception away before its first access to a field,
  which would be undefined with the exception pending, and makes it pending again at its
  end. So the result of \<^verbatim>\<open>close\<close> is the result of \<^verbatim>\<open>close\<close> on the same world without a
  pending exception, with the exception put back: with a null field \<^verbatim>\<open>nativeParams\<close> the
  world is returned as it was, and otherwise the memory is released and the field reset
  in the world without the exception. When \<^verbatim>\<open>close\<close> returns, the field is null and
  exactly the exception that was pending is pending; on a fully constructed object it
  returns and the structure NativeParams is released.
\<close>

theorem close_rethrows_pending:
  "RandUnuran_close env obj w =
     map_option (\<lambda>w'. w'\<lparr>pending := pending w\<rparr>) (RandUnuran_close env obj (w\<lparr>pending := None\<rparr>))
   \<and> (pending w \<noteq> None \<longrightarrow>
        GetLongField_nativeParams obj w = None \<and> SetLongField_nativeParams obj 0 w = None)
   \<and> (fidNativeParams w \<and> nativeParams w obj = 0 \<longrightarrow> RandUnuran_close env obj w = Some w)
   \<and> (fidNativeParams w \<and> nativeParams w obj \<noteq> 0 \<longrightarrow>
        RandUnuran_close env obj w =
          map_option (\<lambda>w'. w'\<lparr>pending := pending w\<rparr>)
            (close_cleanup (nativeParams w obj) obj (w\<lparr>pending := None\<rparr>)))
   \<and> (RandUnuran_close env obj w = Some w' \<longrightarrow>
        pending w' = pending w \<and> nativeParams w' obj = 0
        \<and> (nativeParams w obj \<noteq> 0 \<longrightarrow> native_params w' (nativeParams w obj) = None))
   \<and> (fidNativeParams w \<and> handle_ready obj w \<longrightarrow>
        (\<exists>w'. RandUnuran_close env obj w = Some w' \<and> pending w' = pending w
            \<and> nativeParams w' obj = 0 \<and> native_params w' (nativeParams w obj) = None))"
proof -
  have 1: "RandUnuran_close env obj w =
     map_option (\<lambda>w'. w'\<lparr>pending := pending w\<rparr>) (RandUnuran_close env obj (w\<lparr>pending := None\<rparr>))"
    by (rule close_pending)
  have 2: "pending w \<noteq> None \<longrightarrow>
        GetLongField_nativeParams obj w = None \<and> SetLongField_nativeParams obj 0 w = None"
    by (simp add: GetLongField_nativeParams_def SetLongField_nativeParams_def)
  have 3: "fidNativeParams w \<and> nativeParams w obj = 0 \<longrightarrow> RandUnuran_close env obj w = Some w"
    by (simp add: close_null)
  have 4: "fidNativeParams w \<and> nativeParams w obj \<noteq> 0 \<longrightarrow>
        RandUnuran_close env obj w =
          map_option (\<lambda>w'. w'\<lparr>pending := pending w\<rparr>)
            (close_cleanup (nativeParams w obj) obj (w\<lparr>pending := None\<rparr>))"
  proof (intro impI)
    assume a: "fidNativeParams w \<and> nativeParams w obj \<noteq> 0"
    show "RandUnuran_close env obj w =
          map_option (\<lambda>w'. w'\<lparr>pending := pending w\<rparr>)
            (close_cleanup (nativeParams w obj) obj (w\<lparr>pending := None\<rparr>))"
    proof (cases "close_cleanup (nativeParams w obj) obj (w\<lparr>pending := None\<rparr>)")
      case None
      with a show ?thesis
        by (simp add: RandUnuran_close_def GetLongField_nativeParams_def Let_def)
    next
      case (Some w1)
      from close_cleanup_pending[OF Some] have "pending w1 = None" by simp
      then have "w1\<lparr>pending := None\<rparr> = w1" by simp
      with a Some show ?thesis
        by (cases "pending w")
           (simp_all add: RandUnuran_close_def GetLongField_nativeParams_def Let_def)
    qed
  qed
  have 5: "pending w' = pending w \<and> nativeParams w' obj = 0
        \<and> (nativeParams w obj \<noteq> 0 \<longrightarrow> native_params w' (nativeParams w obj) = None)"
    if c: "RandUnuran_close env obj w = Some w'" for w'
  proof -
    from c 1 obtain w1 where "w' = w1\<lparr>pending := pending w\<rparr>" by auto
    then have "pending w' = pending w" by simp
    moreover from close_then_null[OF c] have "nativeParams w' obj = 0" by simp
    moreover from close_others[OF c, of "nativeParams w obj"]
    have "nativeParams w obj \<noteq> 0 \<longrightarrow> native_params w' (nativeParams w obj) = None" by simp
    ultimately show ?thesis by simp
  qed
  have 6: "fidNativeParams w \<and> handle_ready obj w \<longrightarrow>
        (\<exists>w'. RandUnuran_close env obj w = Some w' \<and> pending w' = pending w
            \<and> nativeParams w' obj = 0 \<and> native_params w' (nativeParams w obj) = None)"
  proof (intro impI)
    assume a: "fidNativeParams w \<and> handle_ready obj w"
    then obtain w1 where c: "RandUnuran_close env obj w = Some w1"
      using close_ready[of obj w env] by blast
    from a have "nativeParams w obj \<noteq> 0" by (simp add: handle_ready_def)
    with 5[OF c] c
    show "\<exists>w'. RandUnuran_close env obj w = Some w' \<and> pending w' = pending w
            \<and> nativeParams w' obj = 0 \<and> native_params w' (nativeParams w obj) = None"
      by blast
  qed
  from 1 2 3 4 5[of w'] 6 show ?thesis by (intro conjI impI) blast+
qed

lemma example_ready_handle:
  "handle_ready 1 (example_ready\<lparr>pending := e\<rparr>)" "fidNativeParams (example_ready\<lparr>pending := e\<rparr>)"
  "nativeParams (example_ready\<lparr>pending := e\<rparr>) 1 = 3"
  by (simp_all add: handle_ready_def mode_of_def example_ready_def example_fresh_def
      example_gen_def example_block_def)

theorem close_rethrows_pending_witness:
  "\<exists>w'. RandUnuran_close 7 1 (example_ready\<lparr>pending := Some (Throwable ''E'' ''m'')\<rparr>) = Some w'
       \<and> pending w' = Some (Throwable ''E'' ''m'')
       \<and> nativeParams w' 1 = 0 \<and> native_params w' 3 = None
       \<and> GetLongField_nativeParams 1 (example_ready\<lparr>pending := Some (Throwable ''E'' ''m'')\<rparr>) = None"
proof -
  let ?w = "example_ready\<lparr>pending := Some (Throwable ''E'' ''m'')\<rparr>"
  note h = example_ready_handle[of "Some (Throwable ''E'' ''m'')"]
  note t = close_rethrows_pending[of 7 1 ?w undefined]
  from t h(1,2) have "\<exists>w'. RandUnuran_close 7 1 ?w = Some w' \<and> pending w' = pending ?w
            \<and> nativeParams w' 1 = 0 \<and> native_params w' (nativeParams ?w 1) = None"
    by blast
  then obtain w' where "RandUnuran_close 7 1 ?w = Some w'" "pending w' = Some (Throwable ''E'' ''m'')"
    "nativeParams w' 1 = 0" "native_params w' 3 = None"
    using h(3) by auto
  moreover from t have "GetLongField_nativeParams 1 ?w = None" by simp
  ultimately show ?thesis by blast
qed

text \<open>
  Claim C6. An initialisation of a new object returns, and afterwards either the object
  holds a fully constructed structure, or its field \<^verbatim>\<open>nativeParams\<close> is null and no block,
  generator or global reference is live that was not live before (the default uniform
  generator of the process apart). In the second case \<^verbatim>\<open>close\<close> changes nothing when the
  identifier of the field \<^verbatim>\<open>nativeParams\<close> is cached, and it is cached whenever the class
  initialisation at the start succeeded, that is, in every call that came as far as the
  creation of the UNURAN generator. When UNURAN rejects the generator string, the second
  case holds; and when moreover every resource is granted and every class and member is
  found, \<^verbatim>\<open>close\<close> changes nothing and the pending exception is an UnuranException whose
  message ends with the error text of UNURAN.
\<close>

theorem construction_failure_tears_down:
  assumes ir: "init_ready w" and fr: "nativeParams w obj = 0"
  shows "\<exists>w'. RandUnuran_init env obj str w = Some w'
       \<and> (nativeParams w' obj = 0 \<and> no_new_blocks w w'
            \<and> (fidNativeParams w' \<longrightarrow> RandUnuran_close env obj w' = Some w')
          \<or> handle_ready obj w')
       \<and> ((\<exists>w1. initClass w = Some (True, w1)) \<longrightarrow> fidNativeParams w')
       \<and> (\<forall>msg. str2gen w str = Inl msg \<longrightarrow>
             nativeParams w' obj = 0 \<and> no_new_blocks w w'
             \<and> ((\<exists>w1. initClass w = Some (True, w1)) \<longrightarrow>
                  RandUnuran_close env obj w' = Some w')
             \<and> (grants w = [] \<and> (\<forall>c. class_found w c) \<and> (\<forall>m. member_found w m) \<longrightarrow>
                  RandUnuran_close env obj w' = Some w'
                  \<and> pending w' = Some (Throwable ''umontreal/ssj/randvar/UnuranException''
                                       (''cannot create UNURAN generator: '' @ msg))))"
proof -
  from init_outcome[OF ir fr, of env str] obtain w' where
    i: "RandUnuran_init env obj str w = Some w'"
    and o: "nativeParams w' obj = 0 \<and> no_new_blocks w w' \<or> handle_ready obj w'"
    and f: "\<forall>msg. str2gen w str = Inl msg \<longrightarrow> nativeParams w' obj = 0"
    and m: "\<forall>msg. str2gen w str = Inl msg \<and> grants w = [] \<and> (\<forall>c. class_found w c)
              \<and> (\<forall>m. member_found w m) \<longrightarrow>
            pending w' = Some (Throwable ''umontreal/ssj/randvar/UnuranException''
                                 (''cannot create UNURAN generator: '' @ msg))"
    and c: "(\<exists>w1. initClass w = Some (True, w1)) \<longrightarrow> fidNativeParams w'"
    by blast
  have nr: "nativeParams w' obj = 0 \<longrightarrow> \<not> handle_ready obj w'"
    by (simp add: handle_ready_def)
  have cl: "nativeParams w' obj = 0 \<and> fidNativeParams w' \<longrightarrow> RandUnuran_close env obj w' = Some w'"
    by (simp add: close_null)
  have g: "\<exists>w1. initClass w = Some (True, w1)"
    if "grants w = [] \<and> (\<forall>c. class_found w c) \<and> (\<forall>m. member_found w m)"
  proof -
    from that initClass_granted[OF ir, of ] have
      "case initClass w of None \<Rightarrow> False | Some r \<Rightarrow> fst r \<and> grants (snd r) = []"
      by simp
    then show ?thesis by (cases "initClass w") auto
  qed
  show ?thesis
  proof (intro exI[of _ w'] conjI allI impI)
    show "RandUnuran_init env obj str w = Some w'" by (rule i)
    show "nativeParams w' obj = 0 \<and> no_new_blocks w w'
            \<and> (fidNativeParams w' \<longrightarrow> RandUnuran_close env obj w' = Some w')
          \<or> handle_ready obj w'"
      using o cl by blast
    show "fidNativeParams w'" if "\<exists>w1. initClass w = Some (True, w1)"
      using c that by simp
    show "nativeParams w' obj = 0" if "str2gen w str = Inl msg" for msg
      using f that by simp
    show "no_new_blocks w w'" if "str2gen w str = Inl msg" for msg
    proof -
      from f that have "nativeParams w' obj = 0" by simp
      with o nr show ?thesis by simp
    qed
    show "RandUnuran_close env obj w' = Some w'"
      if "str2gen w str = Inl msg" "\<exists>w1. initClass w = Some (True, w1)" for msg
      using f that c cl by simp
    show "RandUnuran_close env obj w' = Some w'"
      if "str2gen w str = Inl msg"
        "grants w = [] \<and> (\<forall>c. class_found w c) \<and> (\<forall>m. member_found w m)" for msg
      using f that(1) g[OF that(2)] c cl by simp
    show "pending w' = Some (Throwable ''umontreal/ssj/randvar/UnuranException''
                                       (''cannot create UNURAN generator: '' @ msg))"
      if "str2gen w str = Inl msg"
        "grants w = [] \<and> (\<forall>c. class_found w c) \<and> (\<forall>m. member_found w m)" for msg
      using m that by simp
  qed
qed

theorem construction_failure_tears_down_witness:
  "\<exists>w'. RandUnuran_init 7 1 ''bad'' example_fresh = Some w'
       \<and> nativeParams w' 1 = 0 \<and> no_new_blocks example_fresh w'
       \<and> RandUnuran_close 7 1 w' = Some w'
       \<and> pending w' = Some (Throwable ''umontreal/ssj/randvar/UnuranException''
                              ''cannot create UNURAN generator: syntax error'')"
proof -
  have s: "str2gen example_fresh ''bad'' = Inl ''syntax error''"
    and g: "grants example_fresh = [] \<and> (\<forall>c. class_found example_fresh c)
            \<and> (\<forall>m. member_found example_fresh m)"
    by (simp_all add: example_fresh_def)
  from construction_failure_tears_down[OF example_fresh_ready, of 7 "''bad''"] s g
  show ?thesis by auto
qed

lemma same_np_inv:
  "native_params w' = native_params w \<Longrightarrow> adapters_inv w \<Longrightarrow> adapters_inv w'"
  by (simp add: adapters_inv_def)

text \<open>
  Claim C10. When \<^verbatim>\<open>urng_jni_create\<close> returns, the structure holds a live generator made
  for its live parameter block, or two null pointers; it returns when the structure
  held a null or a live generator. Called on a structure without a generator, as the
  code always does, it leaves in the first case exactly one new block and one new
  generator on the heap, and in the second case the heap as it was before the call: the
  block that was allocated before the creation of the generator failed is freed. When
  \<^verbatim>\<open>urng_jni_destroy\<close> returns, the structure holds two null pointers and the block and
  the generator it held are freed; on a structure with two null pointers and on the null
  pointer it changes nothing. Initialisation, \<^verbatim>\<open>close\<close> and the five sampling functions
  keep the invariant that in every structure NativeParams each of the two generators is
  null exactly when its parameter block is.
\<close>

theorem adapter_all_or_nothing:
  "(urng_jni_create r w = Some w' \<longrightarrow>
      (\<exists>g. load_gen r w' = Some g \<and>
           (uw_urng g \<noteq> 0 \<and> uw_params g \<noteq> 0 \<and> urngs w' (uw_urng g) = Some (uw_params g)
              \<and> gen_params w' (uw_params g) \<noteq> None
            \<or> uw_urng g = 0 \<and> uw_params g = 0)))
   \<and> (urng_jni_create r w = Some w' \<and> load_gen r w = Some g0 \<and> uw_urng g0 = 0
        \<and> 0 < next_addr w \<and> gen_params w (next_addr w) = None \<longrightarrow>
      (\<exists>g. load_gen r w' = Some g \<and>
           (uw_params g = next_addr w \<and> uw_urng g = next_addr w + 1
              \<and> gen_params w' = (gen_params w)(next_addr w \<mapsto>
                    (fresh_block w)\<lparr>gp_env := 0, gp_unif := F_unif\<rparr>)
              \<and> urngs w' = (urngs w)(next_addr w + 1 \<mapsto> next_addr w)
            \<or> uw_urng g = 0 \<and> uw_params g = 0
              \<and> gen_params w' = gen_params w \<and> urngs w' = urngs w)))
   \<and> (load_gen r w = Some g0 \<and> (uw_urng g0 = 0 \<or> urngs w (uw_urng g0) \<noteq> None) \<longrightarrow>
        urng_jni_create r w \<noteq> None)
   \<and> (urng_jni_destroy r w = Some w' \<and> r \<noteq> NullGen \<longrightarrow>
        load_gen r w' = Some \<lparr>uw_urng = 0, uw_params = 0\<rparr>)
   \<and> (urng_jni_destroy r w = Some w' \<and> load_gen r w = Some g0 \<longrightarrow>
        gen_params w' = (if uw_params g0 \<noteq> 0 then (gen_params w)(uw_params g0 := None)
                         else gen_params w)
        \<and> urngs w' = (if uw_urng g0 \<noteq> 0 then (urngs w)(uw_urng g0 := None) else urngs w))
   \<and> (load_gen r w = Some \<lparr>uw_urng = 0, uw_params = 0\<rparr> \<longrightarrow> urng_jni_destroy r w = Some w)
   \<and> urng_jni_destroy NullGen w = Some w
   \<and> (adapters_inv w \<and> init_ready w \<and> nativeParams w obj = 0 \<longrightarrow>
        (\<exists>w1. RandUnuran_init env obj str w = Some w1 \<and> adapters_inv w1))
   \<and> (adapters_inv w \<and> RandUnuran_close env obj w = Some w' \<longrightarrow> adapters_inv w')
   \<and> (adapters_inv w \<and> getRandDisc env obj u np w = Some (xi, w') \<longrightarrow> adapters_inv w')
   \<and> (adapters_inv w \<and> getRandCont env obj u np w = Some (xr, w') \<longrightarrow> adapters_inv w')
   \<and> (adapters_inv w \<and> getRandVec env obj u np jvec w = Some w' \<longrightarrow> adapters_inv w')
   \<and> (adapters_inv w \<and> getRandDiscArray env obj np ju juaux jv start n w = Some w' \<longrightarrow>
        adapters_inv w')
   \<and> (adapters_inv w \<and> getRandContArray env obj np ju juaux jv start n w = Some w' \<longrightarrow>
        adapters_inv w')"
proof (intro conjI impI)
  assume "urng_jni_create r w = Some w'"
  then show "\<exists>g. load_gen r w' = Some g \<and>
           (uw_urng g \<noteq> 0 \<and> uw_params g \<noteq> 0 \<and> urngs w' (uw_urng g) = Some (uw_params g)
              \<and> gen_params w' (uw_params g) \<noteq> None
            \<or> uw_urng g = 0 \<and> uw_params g = 0)"
    by (rule create_post)
next
  assume "urng_jni_create r w = Some w' \<and> load_gen r w = Some g0 \<and> uw_urng g0 = 0
        \<and> 0 < next_addr w \<and> gen_params w (next_addr w) = None"
  then show "\<exists>g. load_gen r w' = Some g \<and>
           (uw_params g = next_addr w \<and> uw_urng g = next_addr w + 1
              \<and> gen_params w' = (gen_params w)(next_addr w \<mapsto>
                    (fresh_block w)\<lparr>gp_env := 0, gp_unif := F_unif\<rparr>)
              \<and> urngs w' = (urngs w)(next_addr w + 1 \<mapsto> next_addr w)
            \<or> uw_urng g = 0 \<and> uw_params g = 0
              \<and> gen_params w' = gen_params w \<and> urngs w' = urngs w)"
    using create_heap[of r w w' g0] by blast
next
  assume "load_gen r w = Some g0 \<and> (uw_urng g0 = 0 \<or> urngs w (uw_urng g0) \<noteq> None)"
  then show "urng_jni_create r w \<noteq> None" using create_total[of r w g0] by blast
next
  assume "urng_jni_destroy r w = Some w' \<and> r \<noteq> NullGen"
  then show "load_gen r w' = Some \<lparr>uw_urng = 0, uw_params = 0\<rparr>"
    using destroy_post[of r w w'] by blast
next
  assume "urng_jni_destroy r w = Some w' \<and> load_gen r w = Some g0"
  then show "gen_params w' = (if uw_params g0 \<noteq> 0 then (gen_params w)(uw_params g0 := None)
                         else gen_params w)"
    and "urngs w' = (if uw_urng g0 \<noteq> 0 then (urngs w)(uw_urng g0 := None) else urngs w)"
    using destroy_heap[of r w w' g0] by blast+
next
  assume "load_gen r w = Some \<lparr>uw_urng = 0, uw_params = 0\<rparr>"
  then show "urng_jni_destroy r w = Some w" by (rule destroy_null)
next
  show "urng_jni_destroy NullGen w = Some w" by (simp add: urng_jni_destroy_def)
next
  assume a: "adapters_inv w \<and> init_ready w \<and> nativeParams w obj = 0"
  then have ir: "init_ready w" and fr: "nativeParams w obj = 0" by simp_all
  from init_outcome[OF ir fr, of env str] a
  show "\<exists>w1. RandUnuran_init env obj str w = Some w1 \<and> adapters_inv w1" by blast
next
  assume "adapters_inv w \<and> RandUnuran_close env obj w = Some w'"
  then show "adapters_inv w'" using close_adapters_inv[of env obj w w'] by blast
next
  assume "adapters_inv w \<and> getRandDisc env obj u np w = Some (xi, w')"
  then show "adapters_inv w'" using getRandDisc_frame same_np_inv by blast
next
  assume "adapters_inv w \<and> getRandCont env obj u np w = Some (xr, w')"
  then show "adapters_inv w'" using getRandCont_frame same_np_inv by blast
next
  assume "adapters_inv w \<and> getRandVec env obj u np jvec w = Some w'"
  then show "adapters_inv w'" using getRandVec_frame same_np_inv by blast
next
  assume "adapters_inv w \<and> getRandDiscArray env obj np ju juaux jv start n w = Some w'"
  then show "adapters_inv w'" using discr_array_frame same_np_inv by blast
next
  assume "adapters_inv w \<and> getRandContArray env obj np ju juaux jv start n w = Some w'"
  then show "adapters_inv w'" using cont_array_frame same_np_inv by blast
qed

theorem adapter_all_or_nothing_witness:
  "\<exists>w1 w2. RandUnuran_init 7 1 ''ok'' example_fresh = Some w1 \<and> adapters_inv w1
       \<and> urng_jni_destroy DefaultUrng example_fresh = Some example_fresh
       \<and> urng_jni_create DefaultUrng (example_fresh\<lparr>grants := [True, False]\<rparr>) = Some w2
       \<and> default_urng w2 = \<lparr>uw_urng = 0, uw_params = 0\<rparr>
       \<and> gen_params w2 = Map.empty \<and> urngs w2 = Map.empty"
proof -
  have a: "adapters_inv example_fresh"
    by (simp add: adapters_inv_def example_fresh_def)
  have l: "load_gen DefaultUrng example_fresh = Some \<lparr>uw_urng = 0, uw_params = 0\<rparr>"
    by (simp add: load_gen_def example_fresh_def)
  from adapter_all_or_nothing[where w = example_fresh and obj = 1 and env = 7 and str = "''ok''"
      and r = DefaultUrng] a l example_fresh_ready
  obtain w1 where 1: "RandUnuran_init 7 1 ''ok'' example_fresh = Some w1 \<and> adapters_inv w1
       \<and> urng_jni_destroy DefaultUrng example_fresh = Some example_fresh"
    by blast
  let ?w = "example_fresh\<lparr>grants := [True, False]\<rparr>"
  have l2: "load_gen DefaultUrng ?w = Some \<lparr>uw_urng = 0, uw_params = 0\<rparr>"
    "uw_urng \<lparr>uw_urng = 0, uw_params = 0\<rparr> = 0" "0 < next_addr ?w"
    "gen_params ?w (next_addr ?w) = None"
    "gen_params ?w = Map.empty" "urngs ?w = Map.empty"
    by (simp_all add: load_gen_def example_fresh_def)
  have c: "urng_jni_create DefaultUrng ?w
        = Some (example_fresh\<lparr>grants := [], next_addr := 2\<rparr>)"
    by (simp add: class_defs example_fresh_def)
  from adapter_all_or_nothing[where w = ?w and r = DefaultUrng
      and w' = "example_fresh\<lparr>grants := [], next_addr := 2\<rparr>"
      and ?g0.0 = "\<lparr>uw_urng = 0, uw_params = 0\<rparr>"] c l2
  have 2: "default_urng (example_fresh\<lparr>grants := [], next_addr := 2\<rparr>) = \<lparr>uw_urng = 0, uw_params = 0\<rparr>
       \<and> gen_params (example_fresh\<lparr>grants := [], next_addr := 2\<rparr>) = Map.empty
       \<and> urngs (example_fresh\<lparr>grants := [], next_addr := 2\<rparr>) = Map.empty"
    by (auto simp: load_gen_def)
  from 1 2 c show ?thesis by blast
qed

end
